theory Spec2Isabelle
  imports Main
begin

section \<open>Strings and numbers of the host language\<close>

text \<open>
  Strings are lists of bytes: a JavaScript string is read as the UTF-8 bytes of its
  text. Numbers that the modelled code only compares or passes on (HTTP status codes,
  attempt counters, configured delays, query parameter values) are integers well inside
  the range in which the host's double-precision numbers are exact, so they are modelled
  as \<open>nat\<close> or \<open>int\<close>.
\<close>

text \<open>\<^verbatim>\<open>String.prototype.includes\<close>: does \<open>pat\<close> occur in \<open>s\<close> as a contiguous run?\<close>

fun str_includes :: "string \<Rightarrow> string \<Rightarrow> bool" where
  "str_includes [] pat = (pat = [])"
| "str_includes (c # cs) pat = (take (length pat) (c # cs) = pat \<or> str_includes cs pat)"

text \<open>\<^verbatim>\<open>Array.prototype.join\<close> on an array of strings.\<close>

fun join :: "string \<Rightarrow> string list \<Rightarrow> string" where
  "join sep [] = []"
| "join sep [x] = x"
| "join sep (x # y # ys) = x @ sep @ join sep (y # ys)"

text \<open>Decimal rendering of a number, as \<^verbatim>\<open>String(n)\<close> and template literals do.\<close>

definition digit :: "nat \<Rightarrow> char" where
  "digit d = ''0123456789ABCDEF'' ! (d mod 16)"

function decimal :: "nat \<Rightarrow> string" where
  "decimal n = (if n < 10 then [digit n] else decimal (n div 10) @ [digit (n mod 10)])"
  by pat_completeness auto
termination
  by (relation "measure id") auto

definition numberToString :: "int \<Rightarrow> string" where
  "numberToString i = (if i < 0 then CHR ''-'' # decimal (nat (- i)) else decimal (nat i))"

text \<open>
  Where the code multiplies, a double can leave the integers: the non-negative values of
  such a computation are a natural number, infinity, or \<^verbatim>\<open>NaN\<close>.
\<close>

datatype number = Finite nat | Infinity | NaN

section \<open>utils.ts\<close>

subsection \<open>calculateBackoff\<close>

text \<open>
  \<^verbatim>\<open>
  export function calculateBackoff(attempt: number, baseDelay = 1000): number {
    return Math.min(baseDelay * 2 ** attempt, 30000); // Max 30 seconds
  }
  \<close>
  The default of the second parameter is made explicit by \<open>calculateBackoff_default\<close>.
  The arguments are natural numbers, the base delay one that a double holds exactly. The
  host computes on doubles, so the three operations are modelled with their overflow:
  \<open>pow2\<close> is \<^verbatim>\<open>2 ** attempt\<close>, infinite from the exponent 1024 on; \<open>times_number\<close> is
  the product, exact below \<open>2 ^ 1024\<close> when one factor is a power of two, infinite
  above, and not a number for 0 times infinity; \<open>Math_min\<close> is \<^verbatim>\<open>Math.min\<close>, which
  hands a \<^verbatim>\<open>NaN\<close> on.
\<close>

definition pow2 :: "nat \<Rightarrow> number" where
  "pow2 n = (if n < 1024 then Finite (2 ^ n) else Infinity)"

fun times_number :: "number \<Rightarrow> number \<Rightarrow> number" where
  "times_number (Finite a) (Finite b) = (if a * b < 2 ^ 1024 then Finite (a * b) else Infinity)"
| "times_number (Finite a) Infinity = (if a = 0 then NaN else Infinity)"
| "times_number Infinity (Finite b) = (if b = 0 then NaN else Infinity)"
| "times_number Infinity Infinity = Infinity"
| "times_number NaN y = NaN"
| "times_number x NaN = NaN"

fun Math_min :: "number \<Rightarrow> number \<Rightarrow> number" where
  "Math_min NaN y = NaN"
| "Math_min x NaN = NaN"
| "Math_min (Finite a) (Finite b) = Finite (min a b)"
| "Math_min (Finite a) Infinity = Finite a"
| "Math_min Infinity (Finite b) = Finite b"
| "Math_min Infinity Infinity = Infinity"

definition calculateBackoff :: "nat \<Rightarrow> nat \<Rightarrow> number" where
  "calculateBackoff attempt baseDelay =
     Math_min (times_number (Finite baseDelay) (pow2 attempt)) (Finite 30000)"

definition calculateBackoff_default :: "nat \<Rightarrow> number" where
  "calculateBackoff_default attempt = calculateBackoff attempt 1000"

subsection \<open>buildURL\<close>

text \<open>
  The values a query parameter can hold at run time. The declared type is
  \<^verbatim>\<open>string | number | boolean\<close>; the code also guards against \<^verbatim>\<open>null\<close> and
  \<^verbatim>\<open>undefined\<close>.
\<close>

datatype ParamValue = PString string | PNumber int | PBoolean bool | PNull | PUndefined

text \<open>\<^verbatim>\<open>String(value)\<close>\<close>

fun String_of :: "ParamValue \<Rightarrow> string" where
  "String_of (PString s) = s"
| "String_of (PNumber i) = numberToString i"
| "String_of (PBoolean b) = (if b then ''true'' else ''false'')"
| "String_of PNull = ''null''"
| "String_of PUndefined = ''undefined''"

text \<open>
  \<^verbatim>\<open>encodeURIComponent\<close>: every byte of the UTF-8 form is escaped as \<open>%XX\<close> (upper-case
  hexadecimal) except the unreserved characters
  \<^verbatim>\<open>A-Z a-z 0-9 - _ . ! ~ * ' ( )\<close>.
\<close>

definition unreserved :: "char \<Rightarrow> bool" where
  "unreserved c \<longleftrightarrow>
     c \<in> set ''ABCDEFGHIJKLMNOPQRSTUVWXYZabcdefghijklmnopqrstuvwxyz0123456789-_.!~*()''
     \<or> c = CHR 0x27"

definition encodeByte :: "char \<Rightarrow> string" where
  "encodeByte c =
     (if unreserved c then [c]
      else [CHR ''%'', digit (of_char c div 16), digit (of_char c mod 16)])"

definition encodeURIComponent :: "string \<Rightarrow> string" where
  "encodeURIComponent s = concat (map encodeByte s)"

text \<open>
  \<^verbatim>\<open>
  export function buildURL(url, params?) {
    if (!params || Object.keys(params).length === 0) { return url; }
    const queryParams: string[] = [];
    for (const [key, value] of Object.entries(params)) {
      if (value === null || value === undefined) { continue; }
      queryParams.push(
        `${encodeURIComponent(key)}=${encodeURIComponent(String(value))}`);
    }
    if (queryParams.length === 0) { return url; }
    const separator = url.includes('?') ? '&' : '?';
    return url + separator + queryParams.join('&');
  }
  \<close>
  The parameter object is given as the list of its entries, in the order in which
  \<^verbatim>\<open>Object.entries\<close> enumerates them; \<open>None\<close> is an absent (or null) object.
  \<open>buildURL_loop\<close> is the \<^verbatim>\<open>for\<close> loop, with \<open>queryParams\<close> as accumulator.
\<close>

fun buildURL_loop :: "(string \<times> ParamValue) list \<Rightarrow> string list \<Rightarrow> string list" where
  "buildURL_loop [] queryParams = queryParams"
| "buildURL_loop ((key, val) # rest) queryParams =
     (if val = PNull \<or> val = PUndefined then buildURL_loop rest queryParams
      else buildURL_loop rest
             (queryParams @ [encodeURIComponent key @ ''='' @ encodeURIComponent (String_of val)]))"

definition buildURL :: "string \<Rightarrow> (string \<times> ParamValue) list option \<Rightarrow> string" where
  "buildURL url params =
     (case params of
        None \<Rightarrow> url
      | Some entries \<Rightarrow>
          if length entries = 0 then url
          else let queryParams = buildURL_loop entries [] in
            if length queryParams = 0 then url
            else let separator = (if str_includes url ''?'' then ''&'' else ''?'')
                 in url @ separator @ join ''&'' queryParams)"

text \<open>
  The same function as the specification words it: keep the parameters that are neither
  null nor undefined, encode key and value of each, join with \<open>&\<close>.
\<close>

definition present :: "(string \<times> ParamValue) list \<Rightarrow> (string \<times> ParamValue) list" where
  "present entries = filter (\<lambda>(k, v). v \<noteq> PNull \<and> v \<noteq> PUndefined) entries"

definition encodePair :: "string \<times> ParamValue \<Rightarrow> string" where
  "encodePair kv = encodeURIComponent (fst kv) @ ''='' @ encodeURIComponent (String_of (snd kv))"

definition buildURL_spec :: "string \<Rightarrow> (string \<times> ParamValue) list option \<Rightarrow> string" where
  "buildURL_spec url params =
     (case params of
        None \<Rightarrow> url
      | Some entries \<Rightarrow>
          if present entries = [] then url
          else url @ (if CHR ''?'' \<in> set url then ''&'' else ''?'')
                   @ join ''&'' (map encodePair (present entries)))"

section \<open>errors.ts\<close>

text \<open>
  The error classes. \<open>name\<close> is the \<^verbatim>\<open>name\<close> property each constructor sets, which
  tells the classes apart. The back-references \<^verbatim>\<open>response\<close> and \<^verbatim>\<open>config\<close> of an
  error are not modelled: no modelled code reads them.
\<close>

datatype ErrorName =
    HttpServiceErrorName | NetworkErrorName | TimeoutErrorName | AbortErrorName
  | AuthenticationErrorName | AuthorizationErrorName | ValidationErrorName | ServerErrorName

record HttpError =
  name :: ErrorName
  message :: string
  status :: "nat option"
  statusText :: "string option"
  isNetworkError :: bool
  isTimeoutError :: bool
  isAbortError :: bool

text \<open>
  The constructor of the base class takes the message and an options object; an absent
  flag is \<open>False\<close> (\<^verbatim>\<open>options.isNetworkError || false\<close>).
\<close>

definition HttpServiceError ::
  "string \<Rightarrow> nat option \<Rightarrow> string option \<Rightarrow> bool \<Rightarrow> bool \<Rightarrow> bool \<Rightarrow> HttpError" where
  "HttpServiceError msg st stText net tmo ab =
     \<lparr>name = HttpServiceErrorName, message = msg, status = st, statusText = stText,
      isNetworkError = net, isTimeoutError = tmo, isAbortError = ab\<rparr>"

definition NetworkError :: "string \<Rightarrow> HttpError" where
  "NetworkError msg = (HttpServiceError msg None None True False False)\<lparr>name := NetworkErrorName\<rparr>"

definition TimeoutError :: "string \<Rightarrow> HttpError" where
  "TimeoutError msg = (HttpServiceError msg None None False True False)\<lparr>name := TimeoutErrorName\<rparr>"

definition AbortError :: "string \<Rightarrow> HttpError" where
  "AbortError msg = (HttpServiceError msg None None False False True)\<lparr>name := AbortErrorName\<rparr>"

definition AuthenticationError :: "string \<Rightarrow> nat \<Rightarrow> HttpError" where
  "AuthenticationError msg st =
     (HttpServiceError msg (Some st) None False False False)\<lparr>name := AuthenticationErrorName\<rparr>"

definition AuthorizationError :: "string \<Rightarrow> nat \<Rightarrow> HttpError" where
  "AuthorizationError msg st =
     (HttpServiceError msg (Some st) None False False False)\<lparr>name := AuthorizationErrorName\<rparr>"

definition ValidationError :: "string \<Rightarrow> nat \<Rightarrow> HttpError" where
  "ValidationError msg st =
     (HttpServiceError msg (Some st) None False False False)\<lparr>name := ValidationErrorName\<rparr>"

definition ServerError :: "string \<Rightarrow> nat \<Rightarrow> HttpError" where
  "ServerError msg st =
     (HttpServiceError msg (Some st) None False False False)\<lparr>name := ServerErrorName\<rparr>"

text \<open>
  \<^verbatim>\<open>
  export function createHttpError(status, statusText, response?, config?) {
    const message = `HTTP ${status}: ${statusText}`;
    switch (true) {
      case status === 400: return new ValidationError(message, status);
      case status === 401: return new AuthenticationError(message, status);
      case status === 403: return new AuthorizationError(message, status);
      case status >= 400 && status < 500:
        return new HttpServiceError(message, { status, statusText, response, config });
      case status >= 500: return new ServerError(message, status);
      default:
        return new HttpServiceError(message, { status, statusText, response, config });
    }
  }
  \<close>
\<close>

definition createHttpError :: "nat \<Rightarrow> string \<Rightarrow> HttpError" where
  "createHttpError st stText =
     (let msg = ''HTTP '' @ decimal st @ '': '' @ stText in
      if st = 400 then ValidationError msg st
      else if st = 401 then AuthenticationError msg st
      else if st = 403 then AuthorizationError msg st
      else if st \<ge> 400 \<and> st < 500 then HttpServiceError msg (Some st) (Some stText) False False False
      else if st \<ge> 500 then ServerError msg st
      else HttpServiceError msg (Some st) (Some stText) False False False)"

section \<open>http-service.ts: one logical call\<close>

subsection \<open>Values, configurations and responses\<close>

text \<open>
  Untyped payloads (\<^verbatim>\<open>unknown\<close>, \<^verbatim>\<open>T\<close>): the code only tests them for truthiness and
  hands them on. An object is opaque and carried by its JSON text.
\<close>

datatype jsval = JUndefined | JNull | JBoolean bool | JNumber int | JString string | JObject string

fun truthy :: "jsval \<Rightarrow> bool" where
  "truthy JUndefined = False"
| "truthy JNull = False"
| "truthy (JBoolean b) = b"
| "truthy (JNumber i) = (i \<noteq> 0)"
| "truthy (JString s) = (s \<noteq> [])"
| "truthy (JObject s) = True"

text \<open>\<^verbatim>\<open>a || b\<close> on an optional number: an absent or zero \<open>a\<close> gives \<open>b\<close>.\<close>

definition or_default :: "nat option \<Rightarrow> nat \<Rightarrow> nat" where
  "or_default a b = (case a of None \<Rightarrow> b | Some v \<Rightarrow> if v = 0 then b else v)"

text \<open>\<^verbatim>\<open>a ?? b\<close>: only an absent \<open>a\<close> gives \<open>b\<close>.\<close>

definition nullish_default :: "nat option \<Rightarrow> nat \<Rightarrow> nat" where
  "nullish_default a b = (case a of None \<Rightarrow> b | Some v \<Rightarrow> v)"

text \<open>
  \<^verbatim>\<open>RequestConfig\<close> (types.ts), with the fields the modelled code reads. An unset boolean
  flag is \<open>False\<close>. \<open>req_data\<close> is the field \<^verbatim>\<open>data\<close>, \<open>req_headers\<close> the field
  \<^verbatim>\<open>headers\<close>.
\<close>

record RequestConfig =
  "method" :: "string option"
  params :: "(string \<times> ParamValue) list option"
  req_data :: jsval
  req_headers :: "(string \<times> string) list"
  retries :: "nat option"
  retryDelay :: "nat option"
  cacheTimeout :: "nat option"
  skipAuth :: bool
  skipCache :: bool

text \<open>
  \<^verbatim>\<open>HttpResponse\<close> (types.ts); \<open>res_status\<close> and \<open>res_statusText\<close> are its fields
  \<^verbatim>\<open>status\<close> and \<^verbatim>\<open>statusText\<close>.
\<close>

record HttpResponse =
  data :: jsval
  res_status :: nat
  res_statusText :: string
  headers :: "(string \<times> string) list"
  config :: RequestConfig

text \<open>
  Whatever a \<^verbatim>\<open>catch\<close> clause can receive: the \<^verbatim>\<open>DOMException\<close> named
  \<^verbatim>\<open>AbortError\<close> that an aborted fetch rejects with, a \<^verbatim>\<open>TypeError\<close>, any other
  \<^verbatim>\<open>Error\<close> (both by message), an instance of \<^verbatim>\<open>HttpServiceError\<close> or of a subclass,
  or a value that is no \<^verbatim>\<open>Error\<close> at all.
\<close>

datatype thrown =
    DOMAbortError
  | TypeError string
  | OtherError string
  | ServiceError HttpError
  | NonError

text \<open>\<^verbatim>\<open>error instanceof Error ? error.message : ...\<close>\<close>

fun error_message :: "thrown \<Rightarrow> string option" where
  "error_message DOMAbortError = Some ''The operation was aborted''"
| "error_message (TypeError m) = Some m"
| "error_message (OtherError m) = Some m"
| "error_message (ServiceError e) = Some (message e)"
| "error_message NonError = None"

text \<open>
  What the transport does with one call: \<^verbatim>\<open>fetch\<close> resolves with a response, whose body
  \<^verbatim>\<open>parseResponse\<close> then decodes (or fails on), or it rejects. \<open>timeoutTriggered\<close> and
  \<open>signalAborted\<close> are the flag of the internal timer and \<^verbatim>\<open>config.signal?.aborted\<close> as
  the \<^verbatim>\<open>catch\<close> clause of \<^verbatim>\<open>executeRequest\<close> finds them.
\<close>

record Response =
  ok :: bool
  raw_status :: nat
  raw_statusText :: string
  raw_headers :: "(string \<times> string) list"
  parsed :: "thrown + jsval"

datatype Settlement = Resolves Response | Rejects thrown

record FetchOutcome =
  settles :: Settlement
  timeoutTriggered :: bool
  signalAborted :: bool

text \<open>
  The observable actions of one logical call, in the order in which they happen:
  a transport call, a call of the configured refresh function followed by the observer
  that is notified, the invocation of one error interceptor with the error it is given,
  and a back-off sleep with its delay.
\<close>

datatype event =
    Fetch
  | RefreshToken
  | OnTokenRefresh string
  | OnAuthError
  | ErrorInterceptor HttpError
  | Sleep number

text \<open>
  The collaborators outside the client: the transport and the refresh function. Each
  answers from the history of the call so far, so any deterministic environment is an
  instance. The refresh function returns the new token or throws.
\<close>

record World =
  fetch :: "event list \<Rightarrow> FetchOutcome"
  refreshToken :: "event list \<Rightarrow> thrown + string"

text \<open>
  The client instance. The \<open>this_\<close> fields are \<^verbatim>\<open>this.config\<close> after the constructor has
  put in its defaults; \<open>hasRefreshToken\<close> says whether \<^verbatim>\<open>authConfig?.refreshToken\<close> is
  set. An interceptor returns its result or throws.
\<close>

record HttpService =
  this_baseURL :: string
  this_retries :: nat
  this_retryDelay :: nat
  this_enableCache :: bool
  this_cacheTimeout :: nat
  this_enableDeduplication :: bool
  requestInterceptors :: "(RequestConfig \<Rightarrow> thrown + RequestConfig) list"
  responseInterceptors :: "(HttpResponse \<Rightarrow> thrown + HttpResponse) list"
  errorInterceptors :: "(HttpError \<Rightarrow> thrown + HttpError) list"
  hasRefreshToken :: bool

subsection \<open>Interceptor chains\<close>

text \<open>
  \<^verbatim>\<open>
  let finalConfig = { ...config };
  for (const interceptor of this.requestInterceptors) {
    finalConfig = await interceptor(finalConfig);
  }
  return finalConfig;
  \<close>
  and the same loop over the response interceptors.
\<close>

fun applyRequestInterceptors ::
  "(RequestConfig \<Rightarrow> thrown + RequestConfig) list \<Rightarrow> RequestConfig \<Rightarrow> thrown + RequestConfig" where
  "applyRequestInterceptors [] finalConfig = Inr finalConfig"
| "applyRequestInterceptors (interceptor # rest) finalConfig =
     (case interceptor finalConfig of
        Inl t \<Rightarrow> Inl t
      | Inr c \<Rightarrow> applyRequestInterceptors rest c)"

fun applyResponseInterceptors ::
  "(HttpResponse \<Rightarrow> thrown + HttpResponse) list \<Rightarrow> HttpResponse \<Rightarrow> thrown + HttpResponse" where
  "applyResponseInterceptors [] finalResponse = Inr finalResponse"
| "applyResponseInterceptors (interceptor # rest) finalResponse =
     (case interceptor finalResponse of
        Inl t \<Rightarrow> Inl t
      | Inr r \<Rightarrow> applyResponseInterceptors rest r)"

text \<open>The error chain also records each invocation.\<close>

fun applyErrorInterceptors ::
  "(HttpError \<Rightarrow> thrown + HttpError) list \<Rightarrow> HttpError \<Rightarrow> event list
     \<Rightarrow> (thrown + HttpError) \<times> event list" where
  "applyErrorInterceptors [] finalError log = (Inr finalError, log)"
| "applyErrorInterceptors (interceptor # rest) finalError log =
     (case interceptor finalError of
        Inl t \<Rightarrow> (Inl t, log @ [ErrorInterceptor finalError])
      | Inr e \<Rightarrow> applyErrorInterceptors rest e (log @ [ErrorInterceptor finalError]))"

subsection \<open>refreshAuthToken\<close>

text \<open>
  \<^verbatim>\<open>
  if (!this.authConfig?.refreshToken) { return null; }
  try {
    const newToken = await this.authConfig.refreshToken();
    this.authConfig.onTokenRefresh?.(newToken);
    return newToken;
  } catch (error) {
    this.authConfig.onAuthError?.(error as HttpError);
    return null;
  }
  \<close>
  The two observers are taken not to throw.
\<close>

definition refreshAuthToken ::
  "HttpService \<Rightarrow> World \<Rightarrow> event list \<Rightarrow> string option \<times> event list" where
  "refreshAuthToken this w log =
     (if \<not> hasRefreshToken this then (None, log)
      else case refreshToken w log of
             Inr newToken \<Rightarrow> (Some newToken, log @ [RefreshToken, OnTokenRefresh newToken])
           | Inl t \<Rightarrow> (None, log @ [RefreshToken, OnAuthError]))"

subsection \<open>executeRequest\<close>

definition determineAbortErrorMessage :: "bool \<Rightarrow> bool \<Rightarrow> string" where
  "determineAbortErrorMessage timeoutTrig aborted =
     (if timeoutTrig then ''Request timeout''
      else if aborted then ''Request aborted by user''
      else ''Request timeout'')"

text \<open>
  The \<^verbatim>\<open>catch\<close> clause of \<^verbatim>\<open>executeRequest\<close>: an abort exception becomes an
  \<^verbatim>\<open>AbortError\<close>, anything else is thrown on as it is.
\<close>

definition executeRequest_catch :: "FetchOutcome \<Rightarrow> thrown \<Rightarrow> thrown" where
  "executeRequest_catch out error =
     (if error = DOMAbortError
      then ServiceError (AbortError (determineAbortErrorMessage (timeoutTriggered out) (signalAborted out)))
      else error)"

text \<open>
  \<^verbatim>\<open>
  try {
    const response = await fetch(url, requestInit);
    if (!response.ok) {
      throw createHttpError(response.status, response.statusText, response, config);
    }
    const data = await parseResponse<T>(response);
    return { data, status: response.status, statusText: response.statusText,
             headers: response.headers, config };
  } catch (error) {
    if (error instanceof DOMException && error.name === 'AbortError') {
      throw new AbortError(this.determineAbortErrorMessage(timeoutTriggered, config));
    }
    throw error;
  }
  \<close>
  The set-up of the timer and of the request options before the \<^verbatim>\<open>try\<close> block is
  left out; both paths clear the timer. Each run appends one transport call to the
  history.
\<close>

definition executeRequest ::
  "World \<Rightarrow> RequestConfig \<Rightarrow> event list \<Rightarrow> (thrown + HttpResponse) \<times> event list" where
  "executeRequest w cfg log =
     (let out = fetch w log; log' = log @ [Fetch] in
      case settles out of
        Rejects error \<Rightarrow> (Inl (executeRequest_catch out error), log')
      | Resolves response \<Rightarrow>
          if \<not> ok response
          then (Inl (executeRequest_catch out
                  (ServiceError (createHttpError (raw_status response) (raw_statusText response)))), log')
          else (case parsed response of
                  Inl error \<Rightarrow> (Inl (executeRequest_catch out error), log')
                | Inr d \<Rightarrow>
                    (Inr \<lparr>data = d, res_status = raw_status response,
                          res_statusText = raw_statusText response,
                          headers = raw_headers response, config = cfg\<rparr>, log')))"

subsection \<open>makeRequestWithAuth\<close>

text \<open>\<^verbatim>\<open>error instanceof HttpServiceError && error.status === 401\<close>\<close>

fun is401 :: "thrown \<Rightarrow> bool" where
  "is401 (ServiceError e) = (status e = Some 401)"
| "is401 _ = False"

text \<open>
  \<^verbatim>\<open>
  private async makeRequestWithAuth(url, config, attempt = 0) {
    try {
      const headers = await this.prepareHeaders(config);
      return await this.executeRequest<T>(url, config, headers);
    } catch (error) {
      if (error instanceof HttpServiceError && error.status === 401 &&
          !config.skipAuth && attempt === 0) {
        const newToken = await this.refreshAuthToken();
        if (newToken) {
          return this.makeRequestWithAuth(url, config, attempt + 1);
        }
      }
      throw error;
    }
  }
  \<close>
  Preparing the headers and serialising the body are taken to succeed (a failing token
  provider is swallowed by \<^verbatim>\<open>getAuthToken\<close>): headers and body do not steer the control
  flow, and what the transport answers to them is the world's choice. So every run of the
  \<^verbatim>\<open>try\<close> block reaches the transport.
\<close>

function makeRequestWithAuth ::
  "HttpService \<Rightarrow> World \<Rightarrow> RequestConfig \<Rightarrow> nat \<Rightarrow> event list
     \<Rightarrow> (thrown + HttpResponse) \<times> event list" where
  "makeRequestWithAuth this w cfg attempt log =
     (case executeRequest w cfg log of
        (Inr response, log1) \<Rightarrow> (Inr response, log1)
      | (Inl error, log1) \<Rightarrow>
          if is401 error \<and> \<not> skipAuth cfg \<and> attempt = 0
          then (case refreshAuthToken this w log1 of
                  (Some newToken, log2) \<Rightarrow>
                    if newToken \<noteq> [] then makeRequestWithAuth this w cfg (attempt + 1) log2
                    else (Inl error, log2)
                | (None, log2) \<Rightarrow> (Inl error, log2))
          else (Inl error, log1))"
  by pat_completeness auto
termination
  by (relation "measure (\<lambda>(this, w, cfg, attempt, log). 1 - attempt)") auto

declare makeRequestWithAuth.simps [simp del]

subsection \<open>handleRequestError, wrapError, shouldRetry\<close>

text \<open>
  \<^verbatim>\<open>
  private wrapError(error, config) {
    if (error instanceof HttpServiceError) { return error; }
    return new HttpServiceError(
      error instanceof Error ? error.message : 'Unknown error occurred', { config });
  }
  \<close>
\<close>

definition wrapError :: "thrown \<Rightarrow> HttpError" where
  "wrapError error =
     (case error of
        ServiceError e \<Rightarrow> e
      | _ \<Rightarrow> HttpServiceError
               (case error_message error of Some m \<Rightarrow> m | None \<Rightarrow> ''Unknown error occurred'')
               None None False False False)"

text \<open>
  \<^verbatim>\<open>
  private async handleRequestError(error, config) {
    if (error instanceof DOMException && error.name === 'AbortError') {
      throw new AbortError('Request aborted');
    }
    if (error instanceof TypeError && error.message.includes('fetch')) {
      throw new NetworkError('Network error occurred');
    }
    if (error instanceof Error &&
        (error.message.includes('Network') || error.message.includes('network') ||
         error.message.includes('fetch'))) {
      throw new NetworkError(error.message);
    }
    const httpError = this.wrapError(error, config);
    return await this.applyErrorInterceptors(httpError);
  }
  \<close>
  \<open>Inl\<close> is a \<^verbatim>\<open>throw\<close>, \<open>Inr\<close> the returned value. \<open>network_related\<close> is the third
  test: it yields the message of an \<^verbatim>\<open>Error\<close> that mentions the network.
\<close>

definition network_related :: "thrown \<Rightarrow> string option" where
  "network_related error =
     (case error_message error of
        Some m \<Rightarrow>
          if str_includes m ''Network'' \<or> str_includes m ''network'' \<or> str_includes m ''fetch''
          then Some m else None
      | None \<Rightarrow> None)"

definition handleRequestError ::
  "HttpService \<Rightarrow> thrown \<Rightarrow> event list \<Rightarrow> (thrown + HttpError) \<times> event list" where
  "handleRequestError this error log =
     (if error = DOMAbortError then (Inl (ServiceError (AbortError ''Request aborted'')), log)
      else if (case error of TypeError m \<Rightarrow> str_includes m ''fetch'' | _ \<Rightarrow> False)
        then (Inl (ServiceError (NetworkError ''Network error occurred'')), log)
      else (case network_related error of
              Some m \<Rightarrow> (Inl (ServiceError (NetworkError m)), log)
            | None \<Rightarrow> applyErrorInterceptors (errorInterceptors this) (wrapError error) log))"

text \<open>
  \<^verbatim>\<open>
  private shouldRetry(error: HttpError): boolean {
    // Don't retry client errors (4xx)
    if (error.status && error.status >= 400 && error.status < 500) { return false; }
    // Retry network errors, timeouts, and server errors (5xx)
    return Boolean(error.isNetworkError || error.isTimeoutError ||
                   (error.status && error.status >= 500));
  }
  \<close>
\<close>

definition shouldRetry :: "HttpError \<Rightarrow> bool" where
  "shouldRetry error =
     (if (case status error of Some s \<Rightarrow> s \<noteq> 0 \<and> s \<ge> 400 \<and> s < 500 | None \<Rightarrow> False) then False
      else isNetworkError error \<or> isTimeoutError error
           \<or> (case status error of Some s \<Rightarrow> s \<noteq> 0 \<and> s \<ge> 500 | None \<Rightarrow> False))"

subsection \<open>makeRequest\<close>

text \<open>
  \<^verbatim>\<open>
  private async makeRequest(url, config, attempt = 0) {
    const retries = config.retries ?? this.config.retries;
    try {
      return await this.makeRequestWithAuth<T>(url, config, 0);
    } catch (error) {
      const processedError = await this.handleRequestError(error, config);
      if (attempt < retries && this.shouldRetry(processedError)) {
        const delay = calculateBackoff(attempt, config.retryDelay || this.config.retryDelay);
        await sleep(delay);
        return this.makeRequest(url, config, attempt + 1);
      }
      throw processedError;
    }
  }
  \<close>
\<close>

definition effective_retries :: "HttpService \<Rightarrow> RequestConfig \<Rightarrow> nat" where
  "effective_retries this cfg = nullish_default (retries cfg) (this_retries this)"

function makeRequest ::
  "HttpService \<Rightarrow> World \<Rightarrow> RequestConfig \<Rightarrow> nat \<Rightarrow> event list
     \<Rightarrow> (thrown + HttpResponse) \<times> event list" where
  "makeRequest this w cfg attempt log =
     (case makeRequestWithAuth this w cfg 0 log of
        (Inr response, log1) \<Rightarrow> (Inr response, log1)
      | (Inl error, log1) \<Rightarrow>
          (case handleRequestError this error log1 of
             (Inl t, log2) \<Rightarrow> (Inl t, log2)
           | (Inr processedError, log2) \<Rightarrow>
               if attempt < effective_retries this cfg \<and> shouldRetry processedError
               then makeRequest this w cfg (attempt + 1)
                      (log2 @ [Sleep (calculateBackoff attempt
                                        (or_default (retryDelay cfg) (this_retryDelay this)))])
               else (Inl (ServiceError processedError), log2)))"
  by pat_completeness auto
termination
  by (relation "measure (\<lambda>(this, w, cfg, attempt, log). effective_retries this cfg - attempt)") auto

declare makeRequest.simps [simp del]

section \<open>http-service.ts: the client instance and its shared tables\<close>

subsection \<open>createURL, createCacheKey\<close>

text \<open>
  \<^verbatim>\<open>
  let fullURL = url;
  if (this.config.baseURL && !url.startsWith('http')) {
    const baseURL = this.config.baseURL.replace(/\/$/, '');
    const cleanUrl = url.replace(/^\//, '');
    fullURL = `${baseURL}/${cleanUrl}`;
  }
  return buildURL(fullURL, params);
  \<close>
\<close>

definition strip_trailing_slash :: "string \<Rightarrow> string" where
  "strip_trailing_slash s = (if s \<noteq> [] \<and> last s = CHR ''/'' then butlast s else s)"

definition strip_leading_slash :: "string \<Rightarrow> string" where
  "strip_leading_slash s = (case s of [] \<Rightarrow> [] | c # cs \<Rightarrow> if c = CHR ''/'' then cs else s)"

definition createURL ::
  "HttpService \<Rightarrow> string \<Rightarrow> (string \<times> ParamValue) list option \<Rightarrow> string" where
  "createURL this url ps =
     (let fullURL =
        (if this_baseURL this \<noteq> [] \<and> take 4 url \<noteq> ''http''
         then strip_trailing_slash (this_baseURL this) @ ''/'' @ strip_leading_slash url
         else url)
      in buildURL fullURL ps)"

text \<open>
  The collaborators of the client whose internals the properties below do not depend
  on: the response cache (the class \<^verbatim>\<open>HttpCache\<close>, with the two calls the client makes,
  \<^verbatim>\<open>cache.get(fullURL, config)\<close> and \<^verbatim>\<open>cache.set(fullURL, data, config, ttl)\<close>) and the host's
  \<^verbatim>\<open>JSON.stringify\<close>. They are parameters, so that what is proved holds for the
  repository's cache class as for any other: \<open>'c\<close> is the state of the cache, a lookup
  returns the value found (\<^verbatim>\<open>undefined\<close> if none) and the cache after the lookup.
\<close>

record 'c Host =
  cache_get :: "'c \<Rightarrow> string \<Rightarrow> RequestConfig \<Rightarrow> jsval \<times> 'c"
  cache_set :: "'c \<Rightarrow> string \<Rightarrow> jsval \<Rightarrow> RequestConfig \<Rightarrow> nat \<Rightarrow> 'c"
  JSON_stringify :: "jsval \<Rightarrow> string"

text \<open>
  \<^verbatim>\<open>
  const method = config.method || 'GET';
  const body = config.data ? JSON.stringify(config.data) : '';
  return `${method}:${url}:${body}`;
  \<close>
\<close>

definition method_or_GET :: "RequestConfig \<Rightarrow> string" where
  "method_or_GET cfg = (case method cfg of None \<Rightarrow> ''GET'' | Some m \<Rightarrow> if m = [] then ''GET'' else m)"

definition createCacheKey :: "'c Host \<Rightarrow> string \<Rightarrow> RequestConfig \<Rightarrow> string" where
  "createCacheKey H url cfg =
     (let body = (if truthy (req_data cfg) then JSON_stringify H (req_data cfg) else [])
      in method_or_GET cfg @ '':'' @ url @ '':'' @ body)"

subsection \<open>The shared state\<close>

text \<open>
  Every call of \<^verbatim>\<open>makeRequest\<close> from \<^verbatim>\<open>request\<close> is one physical dispatch and yields
  one promise. The dispatches of a client are numbered in the order in which they start;
  for each one the state keeps the key under which it was started, the promise's state,
  and how far the call that started it (its owner) has got: it awaits the promise, it is
  inside \<^verbatim>\<open>await this.applyResponseInterceptors(response)\<close>, or it has left
  \<^verbatim>\<open>request\<close> through the \<^verbatim>\<open>finally\<close> block.
\<close>

datatype PromiseState = Pending | Fulfilled HttpResponse | RejectedWith thrown

datatype OwnerPhase = AwaitingRequest | InResponseInterceptors | Finished

record Dispatch =
  cacheKey :: string
  fullURL :: string
  processedConfig :: RequestConfig
  promise :: PromiseState
  owner :: OwnerPhase

record 'c ServiceState =
  cache :: 'c
  pendingRequests :: "string \<rightharpoonup> nat"
  dispatches :: "Dispatch list"

text \<open>
  How a call of \<^verbatim>\<open>request\<close> stands after one uninterrupted run of its code: it has
  returned a response, it has thrown, it has returned the promise of another call's
  dispatch found in \<^verbatim>\<open>pendingRequests\<close>, or it has started a dispatch of its own and
  awaits it.
\<close>

datatype Outcome = Returned HttpResponse | Threw thrown | SharesPromise nat | AwaitsOwnPromise nat

subsection \<open>getCachedResponse, getDeduplicatedRequest, cacheResponse\<close>

text \<open>
  \<^verbatim>\<open>
  if (!this.config.enableCache || processedConfig.skipCache ||
      (processedConfig.method && processedConfig.method !== 'GET')) { return null; }
  const cached = this.cache.get<T>(fullURL, processedConfig);
  if (cached) {
    return { data: cached, status: 200, statusText: 'OK',
             headers: new Headers(), config: processedConfig };
  }
  return null;
  \<close>
\<close>

definition method_is_not_GET :: "RequestConfig \<Rightarrow> bool" where
  "method_is_not_GET cfg = (case method cfg of None \<Rightarrow> False | Some m \<Rightarrow> m \<noteq> [] \<and> m \<noteq> ''GET'')"

definition getCachedResponse ::
  "HttpService \<Rightarrow> 'c Host \<Rightarrow> string \<Rightarrow> RequestConfig \<Rightarrow> 'c \<Rightarrow> HttpResponse option \<times> 'c" where
  "getCachedResponse this H url pcfg c =
     (if \<not> this_enableCache this \<or> skipCache pcfg \<or> method_is_not_GET pcfg then (None, c)
      else let (cached, c') = cache_get H c url pcfg in
        if truthy cached
        then (Some \<lparr>data = cached, res_status = 200, res_statusText = ''OK'',
                    headers = [], config = pcfg\<rparr>, c')
        else (None, c'))"

text \<open>
  \<^verbatim>\<open>
  if (!this.config.enableDeduplication || !this.pendingRequests.has(cacheKey)) {
    return null;
  }
  const request = this.pendingRequests.get(cacheKey);
  return request as Promise<HttpResponse<T>>;
  \<close>
\<close>

definition getDeduplicatedRequest ::
  "HttpService \<Rightarrow> string \<Rightarrow> (string \<rightharpoonup> nat) \<Rightarrow> nat option" where
  "getDeduplicatedRequest this k pend =
     (if \<not> this_enableDeduplication this \<or> pend k = None then None else pend k)"

text \<open>
  \<^verbatim>\<open>
  if (this.config.enableCache && !processedConfig.skipCache &&
      (!processedConfig.method || processedConfig.method === 'GET')) {
    const cacheTimeout = processedConfig.cacheTimeout || this.config.cacheTimeout;
    this.cache.set(fullURL, response.data, processedConfig, cacheTimeout);
  }
  \<close>
\<close>

definition cacheResponse ::
  "HttpService \<Rightarrow> 'c Host \<Rightarrow> string \<Rightarrow> HttpResponse \<Rightarrow> RequestConfig \<Rightarrow> 'c \<Rightarrow> 'c" where
  "cacheResponse this H url response pcfg c =
     (if this_enableCache this \<and> \<not> skipCache pcfg \<and> \<not> method_is_not_GET pcfg
      then cache_set H c url (data response) pcfg
             (or_default (cacheTimeout pcfg) (this_cacheTimeout this))
      else c)"

subsection \<open>request\<close>

text \<open>
  \<^verbatim>\<open>
  async request(url, config = {}) {
    const processedConfig = await this.applyRequestInterceptors(config);
    const fullURL = this.createURL(url, processedConfig.params);
    const cachedResponse = this.getCachedResponse<T>(fullURL, processedConfig);
    if (cachedResponse) { return cachedResponse; }
    const cacheKey = this.createCacheKey(fullURL, processedConfig);
    const deduplicatedRequest = this.getDeduplicatedRequest<T>(cacheKey, fullURL);
    if (deduplicatedRequest) { return deduplicatedRequest; }
    const requestPromise = this.makeRequest<T>(fullURL, processedConfig);
    if (this.config.enableDeduplication) {
      this.pendingRequests.set(cacheKey, requestPromise);
    }
    try {
      const response = await requestPromise;
      const processedResponse = await this.applyResponseInterceptors(response);
      this.cacheResponse(fullURL, processedResponse, processedConfig);
      return processedResponse;
    } finally {
      if (this.config.enableDeduplication) { this.pendingRequests.delete(cacheKey); }
    }
  }
  \<close>
  The function is cut where it can be suspended while it holds or is about to read the
  shared state. \<open>request_enter\<close> runs from the resumption after the request
  interceptors to the first \<^verbatim>\<open>return\<close> or to \<^verbatim>\<open>await requestPromise\<close>; the code
  between those points runs without interruption. \<open>request_settled\<close> is the owner's
  resumption once its promise has settled, up to the next \<^verbatim>\<open>await\<close> or, if the promise
  was rejected, through the \<^verbatim>\<open>finally\<close> block. \<open>request_complete\<close> is the resumption
  after the response interceptors, through the \<^verbatim>\<open>finally\<close> block.
\<close>

definition delete_pending :: "HttpService \<Rightarrow> string \<Rightarrow> (string \<rightharpoonup> nat) \<Rightarrow> (string \<rightharpoonup> nat)" where
  "delete_pending this k pend = (if this_enableDeduplication this then pend(k := None) else pend)"

definition request_enter ::
  "HttpService \<Rightarrow> 'c Host \<Rightarrow> string \<Rightarrow> RequestConfig \<Rightarrow> 'c ServiceState
     \<Rightarrow> Outcome \<times> 'c ServiceState" where
  "request_enter this H url cfg st =
     (case applyRequestInterceptors (requestInterceptors this) cfg of
        Inl t \<Rightarrow> (Threw t, st)
      | Inr pcfg \<Rightarrow>
          let full = createURL this url (params pcfg);
              (cachedResponse, c') = getCachedResponse this H full pcfg (cache st);
              st1 = st\<lparr>cache := c'\<rparr>
          in (case cachedResponse of
                Some r \<Rightarrow> (Returned r, st1)
              | None \<Rightarrow>
                  (let k = createCacheKey H full pcfg in
                   (case getDeduplicatedRequest this k (pendingRequests st1) of
                      Some p \<Rightarrow> (SharesPromise p, st1)
                    | None \<Rightarrow>
                       (let p = length (dispatches st1);
                            st2 = st1\<lparr>dispatches := dispatches st1 @
                                    [\<lparr>cacheKey = k, fullURL = full, processedConfig = pcfg,
                                      promise = Pending, owner = AwaitingRequest\<rparr>]\<rparr>;
                            st3 = (if this_enableDeduplication this
                                   then st2\<lparr>pendingRequests := (pendingRequests st2)(k \<mapsto> p)\<rparr>
                                   else st2)
                        in (AwaitsOwnPromise p, st3))))))"

text \<open>The transport side: dispatch \<open>p\<close> settles with \<open>result\<close>.\<close>

definition settle :: "nat \<Rightarrow> thrown + HttpResponse \<Rightarrow> 'c ServiceState \<Rightarrow> 'c ServiceState" where
  "settle p result st =
     st\<lparr>dispatches := (dispatches st)
          [p := (dispatches st ! p)\<lparr>promise :=
                  (case result of Inl t \<Rightarrow> RejectedWith t | Inr r \<Rightarrow> Fulfilled r)\<rparr>]\<rparr>"

definition leave :: "HttpService \<Rightarrow> nat \<Rightarrow> 'c ServiceState \<Rightarrow> 'c ServiceState" where
  "leave this p st =
     st\<lparr>pendingRequests := delete_pending this (cacheKey (dispatches st ! p)) (pendingRequests st),
        dispatches := (dispatches st)[p := (dispatches st ! p)\<lparr>owner := Finished\<rparr>]\<rparr>"

definition request_settled ::
  "HttpService \<Rightarrow> nat \<Rightarrow> 'c ServiceState \<Rightarrow> (Outcome option \<times> 'c ServiceState) option" where
  "request_settled this p st =
     (if p < length (dispatches st) \<and> owner (dispatches st ! p) = AwaitingRequest
      then (case promise (dispatches st ! p) of
              Pending \<Rightarrow> None
            | RejectedWith t \<Rightarrow> Some (Some (Threw t), leave this p st)
            | Fulfilled r \<Rightarrow>
                Some (None, st\<lparr>dispatches := (dispatches st)
                               [p := (dispatches st ! p)\<lparr>owner := InResponseInterceptors\<rparr>]\<rparr>))
      else None)"

definition request_complete ::
  "HttpService \<Rightarrow> 'c Host \<Rightarrow> nat \<Rightarrow> 'c ServiceState \<Rightarrow> (Outcome \<times> 'c ServiceState) option" where
  "request_complete this H p st =
     (if p < length (dispatches st) \<and> owner (dispatches st ! p) = InResponseInterceptors
      then (case promise (dispatches st ! p) of
              Fulfilled response \<Rightarrow>
                (case applyResponseInterceptors (responseInterceptors this) response of
                   Inl t \<Rightarrow> Some (Threw t, leave this p st)
                 | Inr processedResponse \<Rightarrow>
                     let d = dispatches st ! p;
                         st1 = st\<lparr>cache := cacheResponse this H (fullURL d) processedResponse
                                             (processedConfig d) (cache st)\<rparr>
                     in Some (Returned processedResponse, leave this p st1))
            | _ \<Rightarrow> None)
      else None)"

text \<open>
  The interleavings of a client: calls of \<^verbatim>\<open>request\<close> arrive, dispatches settle, and
  owners resume, in any order in which each step is possible. \<open>exec\<close> is \<open>None\<close> for a
  step that cannot happen in the state (a dispatch settles once; an owner resumes only
  after its promise has settled).
\<close>

datatype action =
    Call string RequestConfig
  | Settle nat "thrown + HttpResponse"
  | OwnerSettled nat
  | OwnerComplete nat

fun exec :: "HttpService \<Rightarrow> 'c Host \<Rightarrow> action \<Rightarrow> 'c ServiceState \<Rightarrow> 'c ServiceState option" where
  "exec this H (Call url cfg) st = Some (snd (request_enter this H url cfg st))"
| "exec this H (Settle p result) st =
     (if p < length (dispatches st) \<and> promise (dispatches st ! p) = Pending
      then Some (settle p result st) else None)"
| "exec this H (OwnerSettled p) st = map_option snd (request_settled this p st)"
| "exec this H (OwnerComplete p) st = map_option snd (request_complete this H p st)"

fun run :: "HttpService \<Rightarrow> 'c Host \<Rightarrow> action list \<Rightarrow> 'c ServiceState \<Rightarrow> 'c ServiceState option" where
  "run this H [] st = Some st"
| "run this H (a # as) st =
     (case exec this H a st of None \<Rightarrow> None | Some st' \<Rightarrow> run this H as st')"

definition initial :: "'c \<Rightarrow> 'c ServiceState" where
  "initial c = \<lparr>cache = c, pendingRequests = Map.empty, dispatches = []\<rparr>"

section \<open>throttling.ts: RequestQueue\<close>

text \<open>
  \<^verbatim>\<open>QueueConfig\<close> as the caller passes it (every field optional) and as the constructor
  stores it:
  \<^verbatim>\<open>
  this.config = {
    maxConcurrent: config.maxConcurrent || 6,
    maxQueueSize: config.maxQueueSize || 100,
    requestsPerSecond: config.requestsPerSecond || 10,
    priorityFn: config.priorityFn || (() => 0),
  };
  \<close>
\<close>

record QueueConfig =
  opt_maxConcurrent :: "nat option"
  opt_maxQueueSize :: "nat option"
  opt_requestsPerSecond :: "nat option"
  opt_priorityFn :: "(RequestConfig \<Rightarrow> int) option"

record RequiredQueueConfig =
  maxConcurrent :: nat
  maxQueueSize :: nat
  requestsPerSecond :: nat
  priorityFn :: "RequestConfig \<Rightarrow> int"

record QueuedRequest =
  queued_config :: RequestConfig
  priority :: int
  timestamp :: int

record RequestQueue =
  queue :: "QueuedRequest list"
  activeRequests :: nat
  queue_config :: RequiredQueueConfig
  lastRequestTime :: int

definition RequestQueue_new :: "QueueConfig \<Rightarrow> RequestQueue" where
  "RequestQueue_new cfg =
     \<lparr>queue = [], activeRequests = 0,
      queue_config =
        \<lparr>maxConcurrent = or_default (opt_maxConcurrent cfg) 6,
         maxQueueSize = or_default (opt_maxQueueSize cfg) 100,
         requestsPerSecond = or_default (opt_requestsPerSecond cfg) 10,
         priorityFn = (case opt_priorityFn cfg of Some f \<Rightarrow> f | None \<Rightarrow> (\<lambda>_. 0))\<rparr>,
      lastRequestTime = 0\<rparr>"

text \<open>
  \<^verbatim>\<open>this.queue.sort((a, b) => b.priority - a.priority)\<close>: a stable sort, higher priority
  first.
\<close>

definition sortQueue :: "RequestQueue \<Rightarrow> RequestQueue" where
  "sortQueue q = q\<lparr>queue := sort_key (\<lambda>r. - priority r) (queue q)\<rparr>"

text \<open>
  \<^verbatim>\<open>processQueue\<close> up to its first suspension, at time \<open>now\<close>:
  \<^verbatim>\<open>
  if (this.activeRequests >= this.config.maxConcurrent || this.queue.length === 0) return;
  const now = Date.now();
  const timeSinceLastRequest = now - this.lastRequestTime;
  const minInterval = 1000 / this.config.requestsPerSecond;
  if (timeSinceLastRequest < minInterval) {
    setTimeout(() => this.processQueue(executor), minInterval - timeSinceLastRequest);
    return;
  }
  const queuedRequest = this.queue.shift();
  if (!queuedRequest) return;
  this.activeRequests++;
  this.lastRequestTime = now;
  ... await executor(queuedRequest.config) ...
  \<close>
  The comparison with the quotient is written without division. The result is the
  request handed to the executor, if any, and the queue.
\<close>

definition processQueue :: "int \<Rightarrow> RequestQueue \<Rightarrow> QueuedRequest option \<times> RequestQueue" where
  "processQueue now q =
     (if activeRequests q \<ge> maxConcurrent (queue_config q) \<or> length (queue q) = 0 then (None, q)
      else if (now - lastRequestTime q) * int (requestsPerSecond (queue_config q)) < 1000
        then (None, q)
      else (case queue q of
              [] \<Rightarrow> (None, q)
            | queuedRequest # rest \<Rightarrow>
                (Some queuedRequest,
                 q\<lparr>queue := rest, activeRequests := activeRequests q + 1, lastRequestTime := now\<rparr>)))"

text \<open>
  \<^verbatim>\<open>
  async enqueue(config, executor) {
    if (this.queue.length >= this.config.maxQueueSize) {
      throw new Error('Request queue is full');
    }
    return new Promise((resolve, reject) => {
      const queuedRequest = { config, resolve, reject,
        priority: this.config.priorityFn(config), timestamp: Date.now() };
      this.queue.push(queuedRequest);
      this.sortQueue();
      this.processQueue(executor);
    });
  }
  \<close>
  \<open>Inl\<close> is the rejection, with the message of the error.
\<close>

definition enqueue ::
  "RequestConfig \<Rightarrow> int \<Rightarrow> RequestQueue \<Rightarrow> string + (QueuedRequest option \<times> RequestQueue)" where
  "enqueue cfg now q =
     (if length (queue q) \<ge> maxQueueSize (queue_config q) then Inl ''Request queue is full''
      else let queuedRequest =
                 \<lparr>queued_config = cfg, priority = priorityFn (queue_config q) cfg, timestamp = now\<rparr>;
               q1 = q\<lparr>queue := queue q @ [queuedRequest]\<rparr>
           in Inr (processQueue now (sortQueue q1)))"

section \<open>Observations on a logical call\<close>

text \<open>
  What the properties below count in the history of a call: transport calls, calls of
  the refresh function, and invocations of error interceptors.
\<close>

definition fetches :: "event list \<Rightarrow> nat" where
  "fetches log = count_list log Fetch"

definition refreshes :: "event list \<Rightarrow> nat" where
  "refreshes log = count_list log RefreshToken"

fun is_interception :: "event \<Rightarrow> bool" where
  "is_interception (ErrorInterceptor e) = True"
| "is_interception _ = False"

definition interceptions :: "event list \<Rightarrow> nat" where
  "interceptions log = length (filter is_interception log)"

text \<open>The dispatch made at history \<open>log\<close> fails with HTTP status 401.\<close>

definition dispatch_fails_401 :: "World \<Rightarrow> RequestConfig \<Rightarrow> event list \<Rightarrow> bool" where
  "dispatch_fails_401 w cfg log =
     (case fst (executeRequest w cfg log) of Inl e \<Rightarrow> is401 e | Inr r \<Rightarrow> False)"

text \<open>An error interceptor that, when it returns, leaves the status of the error alone.\<close>

definition preserves_status :: "(HttpError \<Rightarrow> thrown + HttpError) \<Rightarrow> bool" where
  "preserves_status i = (\<forall>e e'. i e = Inr e' \<longrightarrow> status e' = status e)"

text \<open>
  The failures that \<open>handleRequestError\<close> rethrows by one of its three \<^verbatim>\<open>throw\<close>
  statements, before it wraps the error and reaches the interceptors: the disjuncts are
  the three tests of the handler, in its order.
\<close>

definition rethrown_by_handler :: "thrown \<Rightarrow> bool" where
  "rethrown_by_handler error \<longleftrightarrow>
     error = DOMAbortError
     \<or> (case error of TypeError m \<Rightarrow> str_includes m ''fetch'' | _ \<Rightarrow> False)
     \<or> network_related error \<noteq> None"

text \<open>
  The errors that the loop of \<open>applyErrorInterceptors\<close> passes to the interceptors of a
  chain, in order: each interceptor receives what its predecessor returned, and the loop
  ends at the first interceptor that throws.
\<close>

fun chain_inputs :: "(HttpError \<Rightarrow> thrown + HttpError) list \<Rightarrow> HttpError \<Rightarrow> HttpError list" where
  "chain_inputs [] e = []"
| "chain_inputs (interceptor # rest) e =
     e # (case interceptor e of Inl t \<Rightarrow> [] | Inr e' \<Rightarrow> chain_inputs rest e')"

section \<open>Example clients and transports\<close>

text \<open>
  A GET request with no overrides, and a client with the defaults of the constructor
  (three retries, base delay 1000 ms, cache and deduplication enabled), a refresh
  function and no interceptors.
\<close>

definition example_config :: RequestConfig where
  "example_config =
     \<lparr>method = Some ''GET'', params = None, req_data = JUndefined, req_headers = [],
      retries = None, retryDelay = None, cacheTimeout = None, skipAuth = False,
      skipCache = False\<rparr>"

definition example_service :: HttpService where
  "example_service =
     \<lparr>this_baseURL = [], this_retries = 3, this_retryDelay = 1000, this_enableCache = True,
      this_cacheTimeout = 300000, this_enableDeduplication = True,
      requestInterceptors = [], responseInterceptors = [], errorInterceptors = [],
      hasRefreshToken = True\<rparr>"

text \<open>An error interceptor that throws the error it is given.\<close>

definition throwing :: "HttpError \<Rightarrow> thrown + HttpError" where
  "throwing e = Inl (ServiceError e)"

text \<open>A transport call that rejects with \<open>t\<close>; one that answers with a status and its text.\<close>

definition rejecting :: "thrown \<Rightarrow> FetchOutcome" where
  "rejecting t = \<lparr>settles = Rejects t, timeoutTriggered = False, signalAborted = False\<rparr>"

definition responding :: "nat \<Rightarrow> string \<Rightarrow> FetchOutcome" where
  "responding st txt =
     \<lparr>settles = Resolves \<lparr>ok = (200 \<le> st \<and> st < 300), raw_status = st, raw_statusText = txt,
                          raw_headers = [], parsed = Inr (JObject ''{}'')\<rparr>,
      timeoutTriggered = False, signalAborted = False\<rparr>"

text \<open>
  A world whose transport answers its calls from a script, one entry per call, and with
  \<open>dflt\<close> once the script is used up; its refresh function always yields a token.
\<close>

definition scripted :: "FetchOutcome list \<Rightarrow> FetchOutcome \<Rightarrow> World" where
  "scripted outs dflt =
     \<lparr>fetch = (\<lambda>log. let i = count_list log Fetch in if i < length outs then outs ! i else dflt),
      refreshToken = (\<lambda>log. Inr ''new-token'')\<rparr>"

section \<open>Observations on the shared tables\<close>

text \<open>
  The table of pending requests agrees with the dispatches: a dispatch whose owner has
  not yet left \<^verbatim>\<open>request\<close> is registered under its key, and an owner moves on only
  after its promise has settled.
\<close>

definition table_consistent :: "'c ServiceState \<Rightarrow> bool" where
  "table_consistent st \<longleftrightarrow>
     (\<forall>p < length (dispatches st).
        (owner (dispatches st ! p) \<noteq> Finished
           \<longrightarrow> pendingRequests st (cacheKey (dispatches st ! p)) = Some p)
      \<and> (promise (dispatches st ! p) = Pending \<longrightarrow> owner (dispatches st ! p) = AwaitingRequest))"

text \<open>
  The key under which a call of \<^verbatim>\<open>request\<close> looks itself up in the table of pending
  requests (none if a request interceptor throws).
\<close>

definition fingerprint :: "HttpService \<Rightarrow> 'c Host \<Rightarrow> string \<Rightarrow> RequestConfig \<Rightarrow> string option" where
  "fingerprint this H url cfg =
     (case applyRequestInterceptors (requestInterceptors this) cfg of
        Inl t \<Rightarrow> None
      | Inr pcfg \<Rightarrow> Some (createCacheKey H (createURL this url (params pcfg)) pcfg))"

section \<open>Example states of a client\<close>

text \<open>
  A cache that is a list of URLs with their values, newest first, and a
  \<^verbatim>\<open>JSON.stringify\<close> that is only right for the objects of the examples.
\<close>

definition example_host :: "((string \<times> jsval) list) Host" where
  "example_host =
     \<lparr>cache_get = (\<lambda>c url cfg. (case map_of c url of Some v \<Rightarrow> v | None \<Rightarrow> JUndefined, c)),
      cache_set = (\<lambda>c url v cfg ttl. (url, v) # c),
      JSON_stringify = (\<lambda>v. case v of JString s \<Rightarrow> s | JObject s \<Rightarrow> s | _ \<Rightarrow> [])\<rparr>"

text \<open>A response of the transport as \<^verbatim>\<open>makeRequest\<close> delivers it.\<close>

definition example_response :: HttpResponse where
  "example_response =
     \<lparr>data = JObject ''{id:1}'', res_status = 201, res_statusText = ''Created'',
      headers = [(''content-type'', ''application/json'')], config = example_config\<rparr>"

text \<open>
  The states of the example client after a first \<^verbatim>\<open>GET /a\<close>: while the dispatch is in
  flight; once it has settled and its owner is inside the response interceptors; and
  after the owner has left.
\<close>

definition example_dispatch :: Dispatch where
  "example_dispatch =
     \<lparr>cacheKey = ''GET:/a:'', fullURL = ''/a'', processedConfig = example_config,
      promise = Pending, owner = AwaitingRequest\<rparr>"

definition example_state :: "((string \<times> jsval) list) ServiceState" where
  "example_state =
     \<lparr>cache = [], pendingRequests = [''GET:/a:'' \<mapsto> 0], dispatches = [example_dispatch]\<rparr>"

definition example_state_settled :: "((string \<times> jsval) list) ServiceState" where
  "example_state_settled =
     \<lparr>cache = [], pendingRequests = [''GET:/a:'' \<mapsto> 0],
      dispatches = [example_dispatch\<lparr>promise := Fulfilled example_response,
                                      owner := InResponseInterceptors\<rparr>]\<rparr>"

definition example_state_cached :: "((string \<times> jsval) list) ServiceState" where
  "example_state_cached =
     \<lparr>cache = [(''/a'', JObject ''{id:1}'')], pendingRequests = Map.empty,
      dispatches = [example_dispatch\<lparr>promise := Fulfilled example_response,
                                      owner := Finished\<rparr>]\<rparr>"

text \<open>What a cache hit on \<^verbatim>\<open>/a\<close> returns.\<close>

definition example_envelope :: HttpResponse where
  "example_envelope =
     \<lparr>data = JObject ''{id:1}'', res_status = 200, res_statusText = ''OK'', headers = [],
      config = example_config\<rparr>"

text \<open>A response interceptor that marks the responses it has seen.\<close>

definition marking :: "HttpResponse \<Rightarrow> thrown + HttpResponse" where
  "marking r = Inr (r\<lparr>res_statusText := ''intercepted''\<rparr>)"

text \<open>A queue configuration that asks for a queue of size 0.\<close>

definition example_queue_config :: QueueConfig where
  "example_queue_config =
     \<lparr>opt_maxConcurrent = None, opt_maxQueueSize = Some 0, opt_requestsPerSecond = None,
      opt_priorityFn = None\<rparr>"

section \<open>Properties of the utilities\<close>

subsection \<open>Back-off delays\<close>

lemma cap_below_overflow: "(30000::nat) \<le> 2 ^ 1024"
proof -
  have "(2::nat) ^ 15 \<le> 2 ^ 1024"
    by (intro power_increasing) auto
  then show ?thesis
    by simp
qed

lemma calculateBackoff_value:
  "calculateBackoff attempt baseDelay =
     (if baseDelay = 0 \<and> 1024 \<le> attempt then NaN
      else Finite (min (baseDelay * 2 ^ attempt) 30000))"
proof (cases "attempt < 1024")
  case True
  show ?thesis
  proof (cases "baseDelay * 2 ^ attempt < 2 ^ 1024")
    case True
    with \<open>attempt < 1024\<close> show ?thesis
      by (simp add: calculateBackoff_def pow2_def)
  next
    case False
    then have "(30000::nat) \<le> baseDelay * 2 ^ attempt"
      using cap_below_overflow by linarith
    with False \<open>attempt < 1024\<close> show ?thesis
      by (simp add: calculateBackoff_def pow2_def)
  qed
next
  case False
  show ?thesis
  proof (cases "baseDelay = 0")
    case True
    with False show ?thesis
      by (simp add: calculateBackoff_def pow2_def)
  next
    case nz: False
    from False have "(2::nat) ^ 1024 \<le> 2 ^ attempt"
      by (intro power_increasing) auto
    then have "(30000::nat) \<le> 2 ^ attempt"
      using cap_below_overflow by linarith
    also have "\<dots> \<le> baseDelay * 2 ^ attempt"
      using nz by simp
    finally have "(30000::nat) \<le> baseDelay * 2 ^ attempt" .
    with False nz show ?thesis
      by (simp add: calculateBackoff_def pow2_def)
  qed
qed

lemma calculateBackoff_capped:
  assumes "5 \<le> attempt"
  shows "calculateBackoff attempt 1000 = Finite 30000"
proof -
  from assms have "(2::nat) ^ 5 \<le> 2 ^ attempt"
    by (intro power_increasing) auto
  then have "(30000::nat) \<le> 1000 * 2 ^ attempt"
    by simp
  then show ?thesis
    by (simp add: calculateBackoff_value)
qed

text \<open>
  C4, as stated: for every natural attempt number and base delay the retry delay is
  \<open>min (baseDelay * 2 ^ attempt) 30000\<close>. It fails where the power overflows and the
  base delay is 0: \<^verbatim>\<open>2 ** 1024\<close> is infinite, 0 times infinity is \<^verbatim>\<open>NaN\<close>, and
  \<^verbatim>\<open>Math.min\<close> returns it, where the minimum of the claim is 0.
\<close>

theorem calculateBackoff_zero_base_overflow_counterexample:
  "calculateBackoff 1024 0 = NaN \<and> min (0 * 2 ^ 1024) 30000 = (0::nat)
   \<and> NaN \<noteq> Finite (min (0 * 2 ^ 1024) 30000)"
  by (simp add: calculateBackoff_value)

text \<open>
  C4, amended: for every natural attempt number and base delay the retry delay is
  \<open>min (baseDelay * 2 ^ attempt) 30000\<close>, except for a base delay of 0 with an attempt
  of 1024 or more, where it is \<^verbatim>\<open>NaN\<close>; with the base delay 1000 the attempts 0, 1, 2, 3
  wait 1000, 2000, 4000 and 8000 milliseconds, and every attempt from the fifth on waits
  30000.
\<close>

theorem calculateBackoff_min_cap:
  "calculateBackoff attempt baseDelay =
     (if baseDelay = 0 \<and> 1024 \<le> attempt then NaN
      else Finite (min (baseDelay * 2 ^ attempt) 30000))
   \<and> calculateBackoff 0 1000 = Finite 1000
   \<and> calculateBackoff 1 1000 = Finite 2000
   \<and> calculateBackoff 2 1000 = Finite 4000
   \<and> calculateBackoff 3 1000 = Finite 8000
   \<and> (5 \<le> attempt \<longrightarrow> calculateBackoff attempt 1000 = Finite 30000)"
proof -
  have "calculateBackoff 0 1000 = Finite 1000" "calculateBackoff 1 1000 = Finite 2000"
       "calculateBackoff 2 1000 = Finite 4000" "calculateBackoff 3 1000 = Finite 8000"
    by (simp_all add: calculateBackoff_value)
  then show ?thesis
    using calculateBackoff_value calculateBackoff_capped by simp
qed

theorem calculateBackoff_min_cap_witness:
  "calculateBackoff 7 250 = Finite 30000 \<and> (5::nat) \<le> 7
   \<and> calculateBackoff 7 1000 = Finite 30000 \<and> calculateBackoff 2000 0 = NaN"
  using calculateBackoff_min_cap [of 7 250] calculateBackoff_min_cap [of 2000 0] by simp

subsection \<open>Classification of HTTP statuses\<close>

text \<open>
  C8. The classifier is a function of the status and the status text alone. It maps 400
  to the validation kind, 401 to the authentication kind, 403 to the authorization kind,
  every other status from 400 to 499 to the generic kind and every status from 500 on to
  the server kind; the error carries the status and the message
  \<open>HTTP <status>: <statusText>\<close>.
\<close>

theorem createHttpError_kinds:
  "(st = 400 \<longrightarrow> name (createHttpError st txt) = ValidationErrorName)
   \<and> (st = 401 \<longrightarrow> name (createHttpError st txt) = AuthenticationErrorName)
   \<and> (st = 403 \<longrightarrow> name (createHttpError st txt) = AuthorizationErrorName)
   \<and> (400 \<le> st \<and> st < 500 \<and> st \<noteq> 400 \<and> st \<noteq> 401 \<and> st \<noteq> 403
        \<longrightarrow> name (createHttpError st txt) = HttpServiceErrorName)
   \<and> (500 \<le> st \<longrightarrow> name (createHttpError st txt) = ServerErrorName)
   \<and> status (createHttpError st txt) = Some st
   \<and> message (createHttpError st txt) = ''HTTP '' @ decimal st @ '': '' @ txt"
  by (simp add: createHttpError_def Let_def ValidationError_def AuthenticationError_def
        AuthorizationError_def ServerError_def HttpServiceError_def)

theorem createHttpError_kinds_witness:
  "name (createHttpError 404 ''Not Found'') = HttpServiceErrorName
   \<and> name (createHttpError 503 ''Service Unavailable'') = ServerErrorName
   \<and> status (createHttpError 404 ''Not Found'') = Some 404
   \<and> message (createHttpError 404 ''Not Found'') = ''HTTP 404: Not Found''"
  using createHttpError_kinds [of 404 "''Not Found''"]
        createHttpError_kinds [of 503 "''Service Unavailable''"]
  by (simp add: digit_def)

subsection \<open>Building URLs\<close>

lemma str_includes_single: "str_includes s [c] \<longleftrightarrow> c \<in> set s"
  by (induction s) auto

lemma buildURL_loop_present:
  "buildURL_loop entries acc = acc @ map encodePair (present entries)"
  by (induction entries acc rule: buildURL_loop.induct)
     (auto simp: present_def encodePair_def)

lemma buildURL_refines: "buildURL url ps = buildURL_spec url ps"
  by (auto simp: buildURL_def buildURL_spec_def buildURL_loop_present str_includes_single
        present_def Let_def split: option.splits)

text \<open>
  C9. \<open>buildURL\<close> drops the parameters whose value is null or undefined, encodes key and
  value of each remaining one, joins the pairs with \<open>&\<close>, appends them after \<open>?\<close> when the
  URL holds no \<open>?\<close> yet and after \<open>&\<close> otherwise, and returns the URL unchanged when there
  are no parameters or all are dropped. The two examples of the specification come out
  as stated.
\<close>

theorem buildURL_as_specified:
  "buildURL url ps = buildURL_spec url ps
   \<and> buildURL ''https://x/y'' (Some [(''a'', PNumber 1), (''b'', PString ''h w'')])
       = ''https://x/y?a=1&b=h%20w''
   \<and> buildURL ''https://x/y?z=1'' (Some [(''a'', PNumber 1)]) = ''https://x/y?z=1&a=1''"
proof -
  have "buildURL ''https://x/y'' (Some [(''a'', PNumber 1), (''b'', PString ''h w'')])
          = ''https://x/y?a=1&b=h%20w''"
    by code_simp
  moreover have "buildURL ''https://x/y?z=1'' (Some [(''a'', PNumber 1)]) = ''https://x/y?z=1&a=1''"
    by code_simp
  ultimately show ?thesis
    using buildURL_refines by simp
qed

theorem buildURL_as_specified_witness:
  "buildURL ''https://x/y'' (Some [(''a'', PNull), (''b'', PUndefined)]) = ''https://x/y''
   \<and> buildURL ''https://x/y'' None = ''https://x/y''"
  using buildURL_as_specified [of "''https://x/y''" "Some [(''a'', PNull), (''b'', PUndefined)]"]
        buildURL_as_specified [of "''https://x/y''" None]
  by (simp add: buildURL_spec_def present_def)

section \<open>Properties of one logical call\<close>

lemmas call_defs =
  makeRequest.simps makeRequestWithAuth.simps executeRequest_def executeRequest_catch_def
  handleRequestError_def scripted_def responding_def rejecting_def example_service_def
  example_config_def Let_def createHttpError_def AuthenticationError_def ServerError_def
  HttpServiceError_def NetworkError_def refreshAuthToken_def network_related_def wrapError_def
  shouldRetry_def effective_retries_def nullish_default_def or_default_def calculateBackoff_def
  pow2_def
  digit_def fetches_def refreshes_def interceptions_def dispatch_fails_401_def

subsection \<open>Histories only grow, and by what\<close>

lemma executeRequest_log: "snd (executeRequest w cfg log) = log @ [Fetch]"
  by (simp add: executeRequest_def Let_def split: Settlement.splits sum.splits)

lemma executeRequest_log_eq: "executeRequest w cfg log = (res, log') \<Longrightarrow> log' = log @ [Fetch]"
  using executeRequest_log [of w cfg log] by simp

lemma refreshAuthToken_counts:
  "refreshAuthToken this w log = (tok, log') \<Longrightarrow>
     refreshes log' = refreshes log + (if hasRefreshToken this then 1 else 0)
     \<and> fetches log' = fetches log \<and> interceptions log' = interceptions log"
  by (auto simp: refreshAuthToken_def refreshes_def fetches_def interceptions_def
        split: if_splits sum.splits)

lemma applyErrorInterceptors_counts:
  "applyErrorInterceptors ics e log = (res, log') \<Longrightarrow>
     fetches log' = fetches log \<and> refreshes log' = refreshes log"
  by (induction ics e log rule: applyErrorInterceptors.induct)
     (auto simp: fetches_def refreshes_def split: sum.splits)

lemma applyErrorInterceptors_all_invoked:
  "applyErrorInterceptors ics e log = (Inr pe, log') \<Longrightarrow>
     interceptions log' = interceptions log + length ics"
  by (induction ics e log rule: applyErrorInterceptors.induct)
     (auto simp: interceptions_def split: sum.splits)

lemma applyErrorInterceptors_status:
  "\<forall>i \<in> set ics. preserves_status i \<Longrightarrow>
     applyErrorInterceptors ics e log = (Inr pe, log') \<Longrightarrow> status pe = status e"
  by (induction ics e log rule: applyErrorInterceptors.induct)
     (auto simp: preserves_status_def split: sum.splits)

lemma handleRequestError_counts:
  "handleRequestError this error log = (res, log') \<Longrightarrow>
     fetches log' = fetches log \<and> refreshes log' = refreshes log"
  by (auto simp: handleRequestError_def split: if_splits option.splits
        dest: applyErrorInterceptors_counts)

lemma handleRequestError_Inr:
  "handleRequestError this error log = (Inr pe, log') \<Longrightarrow>
     applyErrorInterceptors (errorInterceptors this) (wrapError error) log = (Inr pe, log')"
  by (auto simp: handleRequestError_def split: if_splits option.splits)

subsection \<open>One step of each wrapper\<close>

lemma makeRequestWithAuth_retry: "makeRequestWithAuth this w cfg (Suc 0) log = executeRequest w cfg log"
  by (subst makeRequestWithAuth.simps) (auto split: prod.splits sum.splits)

lemma makeRequestWithAuth_other_failure:
  assumes "executeRequest w cfg log = (Inl error, log1)" and "\<not> is401 error"
  shows "makeRequestWithAuth this w cfg attempt log = (Inl error, log1)"
  by (subst makeRequestWithAuth.simps) (use assms in simp)

lemma makeRequestWithAuth_401:
  assumes "dispatch_fails_401 w cfg log" and "\<not> skipAuth cfg"
  shows "makeRequestWithAuth this w cfg 0 log =
           (case refreshAuthToken this w (log @ [Fetch]) of
              (Some newToken, log2) \<Rightarrow>
                 if newToken \<noteq> [] then executeRequest w cfg log2
                 else (fst (executeRequest w cfg log), log2)
            | (None, log2) \<Rightarrow> (fst (executeRequest w cfg log), log2))"
proof -
  obtain res log1 where ex: "executeRequest w cfg log = (res, log1)"
    by (cases "executeRequest w cfg log")
  then have l1: "log1 = log @ [Fetch]"
    by (rule executeRequest_log_eq)
  from assms ex obtain error where r: "res = Inl error" "is401 error"
    by (auto simp: dispatch_fails_401_def split: sum.splits)
  show ?thesis
    by (subst makeRequestWithAuth.simps)
       (simp add: ex l1 r assms makeRequestWithAuth_retry split: prod.splits option.splits)
qed

lemma makeRequest_failed_attempt:
  assumes "makeRequestWithAuth this w cfg 0 log = (Inl error, log1)"
      and "handleRequestError this error log1 = (Inr pe, log2)"
  shows "makeRequest this w cfg attempt log =
     (if attempt < effective_retries this cfg \<and> shouldRetry pe
      then makeRequest this w cfg (attempt + 1)
             (log2 @ [Sleep (calculateBackoff attempt
                               (or_default (retryDelay cfg) (this_retryDelay this)))])
      else (Inl (ServiceError pe), log2))"
  by (subst makeRequest.simps) (simp add: assms)

lemma makeRequest_handler_throws:
  assumes "makeRequestWithAuth this w cfg 0 log = (Inl error, log1)"
      and "handleRequestError this error log1 = (Inl t, log2)"
  shows "makeRequest this w cfg attempt log = (Inl t, log2)"
  by (subst makeRequest.simps) (simp add: assms)

subsection \<open>Which failures are retried\<close>

text \<open>
  A response with status 503 is retried until the attempts are used up: with no error
  interceptors, a transport that always answers 503 is called once more than the
  configured number of retries, and the call fails with the server error.
\<close>

lemma makeRequest_503_retried_to_the_maximum:
  assumes f: "\<And>l. settles (fetch w l) = Resolves r" and r: "\<not> ok r" "raw_status r = 503"
      and n: "network_related (ServiceError (createHttpError 503 (raw_statusText r))) = None"
      and i: "errorInterceptors this = []"
      and a: "attempt \<le> effective_retries this cfg"
  shows "fst (makeRequest this w cfg attempt log)
           = Inl (ServiceError (createHttpError 503 (raw_statusText r)))
       \<and> fetches (snd (makeRequest this w cfg attempt log))
           = fetches log + (effective_retries this cfg - attempt) + 1"
  using a
proof (induction "effective_retries this cfg - attempt" arbitrary: attempt log)
  case 0
  let ?e = "createHttpError 503 (raw_statusText r)"
  have ex: "executeRequest w cfg log = (Inl (ServiceError ?e), log @ [Fetch])"
    using f [of log] r by (simp add: executeRequest_def executeRequest_catch_def Let_def)
  have n401: "\<not> is401 (ServiceError ?e)"
    by (simp add: createHttpError_def ServerError_def HttpServiceError_def)
  have m: "makeRequestWithAuth this w cfg 0 log = (Inl (ServiceError ?e), log @ [Fetch])"
    using ex n401 by (rule makeRequestWithAuth_other_failure)
  have h: "handleRequestError this (ServiceError ?e) (log @ [Fetch]) = (Inr ?e, log @ [Fetch])"
    using n i by (simp add: handleRequestError_def wrapError_def)
  show ?case
    using makeRequest_failed_attempt [OF m h, of attempt] 0 by (simp add: fetches_def)
next
  case (Suc k)
  let ?e = "createHttpError 503 (raw_statusText r)"
  have ex: "executeRequest w cfg log = (Inl (ServiceError ?e), log @ [Fetch])"
    using f [of log] r by (simp add: executeRequest_def executeRequest_catch_def Let_def)
  have n401: "\<not> is401 (ServiceError ?e)"
    by (simp add: createHttpError_def ServerError_def HttpServiceError_def)
  have m: "makeRequestWithAuth this w cfg 0 log = (Inl (ServiceError ?e), log @ [Fetch])"
    using ex n401 by (rule makeRequestWithAuth_other_failure)
  have h: "handleRequestError this (ServiceError ?e) (log @ [Fetch]) = (Inr ?e, log @ [Fetch])"
    using n i by (simp add: handleRequestError_def wrapError_def)
  have sr: "shouldRetry ?e"
    by (simp add: shouldRetry_def createHttpError_def ServerError_def HttpServiceError_def)
  have lt: "attempt < effective_retries this cfg"
    using Suc by simp
  let ?log' = "log @ [Fetch] @ [Sleep (calculateBackoff attempt
                                         (or_default (retryDelay cfg) (this_retryDelay this)))]"
  have st: "makeRequest this w cfg attempt log = makeRequest this w cfg (attempt + 1) ?log'"
    using makeRequest_failed_attempt [OF m h, of attempt] lt sr by simp
  have "k = effective_retries this cfg - (attempt + 1)"
       "attempt + 1 \<le> effective_retries this cfg"
    using Suc by simp_all
  from Suc.hyps(1) [OF this, of ?log'] show ?case
    using st Suc(2) by (simp add: fetches_def)
qed

text \<open>
  A response with a status from 400 to 499 is not retried by the back-off mechanism,
  whatever attempts remain, as long as the error interceptors leave the status alone: the
  transport is called once (the status is not 401, or the request opted out of the
  authentication handling).
\<close>

lemma makeRequest_client_error_fails_fast:
  assumes f: "settles (fetch w log) = Resolves r" and r: "\<not> ok r"
      and c: "400 \<le> raw_status r" "raw_status r < 500" "raw_status r \<noteq> 401 \<or> skipAuth cfg"
      and p: "\<forall>i \<in> set (errorInterceptors this). preserves_status i"
  shows "fetches (snd (makeRequest this w cfg attempt log)) = fetches log + 1
       \<and> isl (fst (makeRequest this w cfg attempt log))"
proof -
  let ?e = "createHttpError (raw_status r) (raw_statusText r)"
  have st: "status ?e = Some (raw_status r)"
    by (simp add: createHttpError_def Let_def ValidationError_def AuthenticationError_def
          AuthorizationError_def ServerError_def HttpServiceError_def)
  have ex: "executeRequest w cfg log = (Inl (ServiceError ?e), log @ [Fetch])"
    using f r by (simp add: executeRequest_def executeRequest_catch_def Let_def)
  have m: "makeRequestWithAuth this w cfg 0 log = (Inl (ServiceError ?e), log @ [Fetch])"
    by (subst makeRequestWithAuth.simps) (use ex st c in auto)
  obtain hres log3 where h: "handleRequestError this (ServiceError ?e) (log @ [Fetch]) = (hres, log3)"
    by (cases "handleRequestError this (ServiceError ?e) (log @ [Fetch])")
  have c3: "fetches log3 = fetches log + 1"
    using handleRequestError_counts [OF h] by (simp add: fetches_def)
  show ?thesis
  proof (cases hres)
    case (Inl t)
    then have "makeRequest this w cfg attempt log = (Inl t, log3)"
      using makeRequest_handler_throws [OF m] h by simp
    then show ?thesis
      using c3 by simp
  next
    case (Inr pe)
    then have "status pe = status (wrapError (ServiceError ?e))"
      using applyErrorInterceptors_status [OF p handleRequestError_Inr] h by simp
    then have "\<not> shouldRetry pe"
      using st c by (simp add: wrapError_def shouldRetry_def)
    then have "makeRequest this w cfg attempt log = (Inl (ServiceError pe), log3)"
      using makeRequest_failed_attempt [OF m, of pe log3 attempt] h Inr by simp
    then show ?thesis
      using c3 by simp
  qed
qed

text \<open>
  C1. A failed dispatch is retried with back-off, while attempts remain, exactly when its
  error is a network error, a timeout error or carries a status of 500 or more. The code
  does not do this for a network exception. On a client with three retries and a
  transport that rejects with \<open>Error('Network error')\<close>, \<open>handleRequestError\<close> throws
  the \<open>NetworkError\<close> instead of returning it, so the call ends after a single transport
  call and without any back-off, although three attempts remain and \<open>shouldRetry\<close>
  holds of the very error thrown.
\<close>

theorem makeRequest_network_exception_not_retried:
  "makeRequest example_service (scripted [] (rejecting (OtherError ''Network error'')))
       example_config 0 []
     = (Inl (ServiceError (NetworkError ''Network error'')), [Fetch])
   \<and> effective_retries example_service example_config = 3
   \<and> shouldRetry (NetworkError ''Network error'')"
  by (simp add: call_defs)

theorem makeRequest_network_exception_not_retried_witness:
  "fetches (snd (makeRequest example_service
                   (scripted [] (rejecting (OtherError ''Network error''))) example_config 0 [])) = 1
   \<and> isl (fst (makeRequest example_service
                  (scripted [] (rejecting (OtherError ''Network error''))) example_config 0 []))"
  using makeRequest_network_exception_not_retried by (simp add: fetches_def)

text \<open>
  A timeout fares the same: \<open>executeRequest\<close> reports it as an \<open>AbortError\<close>, whose
  timeout flag is not set, so it is not retried either.
\<close>

lemma makeRequest_timeout_not_retried:
  "makeRequest example_service
      (scripted [] \<lparr>settles = Rejects DOMAbortError, timeoutTriggered = True, signalAborted = False\<rparr>)
      example_config 0 []
     = (Inl (ServiceError (AbortError ''Request timeout'')), [Fetch])
   \<and> \<not> isTimeoutError (AbortError ''Request timeout'')"
  by (simp add: call_defs AbortError_def determineAbortErrorMessage_def)

text \<open>
  So does a response whose status text mentions the network, whatever its status: the
  answer \<open>511 Network Authentication Required\<close> is thrown as a \<open>NetworkError\<close>
  after one transport call.
\<close>

lemma makeRequest_511_not_retried:
  "makeRequest example_service
      (scripted [] (responding 511 ''Network Authentication Required'')) example_config 0 []
     = (Inl (ServiceError (NetworkError ''HTTP 511: Network Authentication Required'')), [Fetch])"
  by (simp add: call_defs)

subsection \<open>Token refresh\<close>

lemma makeRequest_401_twice:
  assumes a: "dispatch_fails_401 w cfg log" "\<not> skipAuth cfg"
      and r: "refreshAuthToken this w (log @ [Fetch]) = (Some tok, log2)" "tok \<noteq> []"
      and b: "dispatch_fails_401 w cfg log2"
      and p: "\<forall>i \<in> set (errorInterceptors this). preserves_status i"
  shows "fetches (snd (makeRequest this w cfg attempt log)) = fetches log + 2
       \<and> refreshes (snd (makeRequest this w cfg attempt log)) = refreshes log + 1
       \<and> isl (fst (makeRequest this w cfg attempt log))"
proof -
  obtain res2 where ex2: "executeRequest w cfg log2 = (res2, log2 @ [Fetch])"
    using executeRequest_log [of w cfg log2] by (cases "executeRequest w cfg log2") auto
  with b obtain e where e: "res2 = Inl (ServiceError e)" "status e = Some 401"
    by (auto simp: dispatch_fails_401_def split: sum.splits elim: is401.elims)
  have m: "makeRequestWithAuth this w cfg 0 log = (Inl (ServiceError e), log2 @ [Fetch])"
    using makeRequestWithAuth_401 [OF a, of this] r ex2 e by simp
  have hr: "hasRefreshToken this"
    using r by (auto simp: refreshAuthToken_def split: if_splits)
  have c2: "refreshes log2 = refreshes log + 1" "fetches log2 = fetches log + 1"
    using refreshAuthToken_counts [OF r(1)] hr by (simp_all add: refreshes_def fetches_def)
  obtain hres log3 where h: "handleRequestError this (ServiceError e) (log2 @ [Fetch]) = (hres, log3)"
    by (cases "handleRequestError this (ServiceError e) (log2 @ [Fetch])")
  have c3: "fetches log3 = fetches log + 2" "refreshes log3 = refreshes log + 1"
    using handleRequestError_counts [OF h] c2 by (simp_all add: refreshes_def fetches_def)
  show ?thesis
  proof (cases hres)
    case (Inl t)
    then have "makeRequest this w cfg attempt log = (Inl t, log3)"
      using makeRequest_handler_throws [OF m] h by simp
    then show ?thesis
      using c3 by simp
  next
    case (Inr pe)
    then have "status pe = status (wrapError (ServiceError e))"
      using applyErrorInterceptors_status [OF p handleRequestError_Inr] h by simp
    then have "\<not> shouldRetry pe"
      using e by (simp add: wrapError_def shouldRetry_def)
    then have "makeRequest this w cfg attempt log = (Inl (ServiceError pe), log3)"
      using makeRequest_failed_attempt [OF m, of pe log3 attempt] h Inr by simp
    then show ?thesis
      using c3 by simp
  qed
qed

lemma makeRequest_401_twice_thrown:
  assumes a: "dispatch_fails_401 w cfg log" "\<not> skipAuth cfg"
      and r: "refreshAuthToken this w (log @ [Fetch]) = (Some tok, log2)" "tok \<noteq> []"
      and b: "dispatch_fails_401 w cfg log2"
      and p: "\<forall>i \<in> set (errorInterceptors this). preserves_status i"
  shows "\<exists>e. fst (executeRequest w cfg log2) = Inl (ServiceError e) \<and> status e = Some 401
           \<and> (case handleRequestError this (ServiceError e) (log2 @ [Fetch]) of
                (Inl t, log3) \<Rightarrow> makeRequest this w cfg attempt log = (Inl t, log3)
              | (Inr pe, log3) \<Rightarrow>
                  makeRequest this w cfg attempt log = (Inl (ServiceError pe), log3)
                  \<and> status pe = Some 401)
           \<and> (errorInterceptors this = [] \<and> network_related (ServiceError e) = None
                \<longrightarrow> makeRequest this w cfg attempt log = (Inl (ServiceError e), log2 @ [Fetch]))"
proof -
  obtain res2 where ex2: "executeRequest w cfg log2 = (res2, log2 @ [Fetch])"
    using executeRequest_log [of w cfg log2] by (cases "executeRequest w cfg log2") auto
  with b obtain e where e: "res2 = Inl (ServiceError e)" "status e = Some 401"
    by (auto simp: dispatch_fails_401_def split: sum.splits elim: is401.elims)
  have m: "makeRequestWithAuth this w cfg 0 log = (Inl (ServiceError e), log2 @ [Fetch])"
    using makeRequestWithAuth_401 [OF a, of this] r ex2 e by simp
  obtain hres log3 where h: "handleRequestError this (ServiceError e) (log2 @ [Fetch]) = (hres, log3)"
    by (cases "handleRequestError this (ServiceError e) (log2 @ [Fetch])")
  have 1: "(case (hres, log3) of
            (Inl t, log3) \<Rightarrow> makeRequest this w cfg attempt log = (Inl t, log3)
          | (Inr pe, log3) \<Rightarrow>
              makeRequest this w cfg attempt log = (Inl (ServiceError pe), log3)
              \<and> status pe = Some 401)"
  proof (cases hres)
    case (Inl t)
    then show ?thesis
      using makeRequest_handler_throws [OF m] h by simp
  next
    case (Inr pe)
    then have s: "status pe = status (wrapError (ServiceError e))"
      using applyErrorInterceptors_status [OF p handleRequestError_Inr] h by simp
    then have "\<not> shouldRetry pe"
      using e by (simp add: wrapError_def shouldRetry_def)
    then have "makeRequest this w cfg attempt log = (Inl (ServiceError pe), log3)"
      using makeRequest_failed_attempt [OF m, of pe log3 attempt] h Inr by simp
    then show ?thesis
      using s e Inr by (simp add: wrapError_def)
  qed
  have 2: "errorInterceptors this = [] \<and> network_related (ServiceError e) = None
            \<longrightarrow> makeRequest this w cfg attempt log = (Inl (ServiceError e), log2 @ [Fetch])"
  proof
    assume n: "errorInterceptors this = [] \<and> network_related (ServiceError e) = None"
    then have hh: "handleRequestError this (ServiceError e) (log2 @ [Fetch]) = (Inr e, log2 @ [Fetch])"
      by (simp add: handleRequestError_def wrapError_def)
    have "\<not> shouldRetry e"
      using e by (simp add: shouldRetry_def)
    then show "makeRequest this w cfg attempt log = (Inl (ServiceError e), log2 @ [Fetch])"
      using makeRequest_failed_attempt [OF m hh, of attempt] by simp
  qed
  have 0: "fst (executeRequest w cfg log2) = Inl (ServiceError e)"
    using ex2 e by simp
  from 0 e(2) 1 2 h show ?thesis
    by (intro exI [of _ e]) simp
qed

text \<open>
  C3, as stated: on a logical call on which a dispatch fails with status 401 and
  \<open>skipAuth\<close> is unset, exactly one token refresh occurs. It fails: \<open>makeRequest\<close>
  starts the authentication wrapper afresh, with its attempt counter at 0, for every
  back-off attempt. On the answers 401, 503, 401, 200 the first 401 is refreshed and
  retried, the 503 is retried by back-off, and the second 401 is refreshed again: two
  refreshes in one logical call.
\<close>

theorem refresh_twice_in_one_call_counterexample:
  "dispatch_fails_401
     (scripted [responding 401 ''Unauthorized'', responding 503 ''Service Unavailable'',
                responding 401 ''Unauthorized''] (responding 200 ''OK''))
     example_config []
   \<and> \<not> skipAuth example_config
   \<and> refreshes (snd (makeRequest example_service
        (scripted [responding 401 ''Unauthorized'', responding 503 ''Service Unavailable'',
                   responding 401 ''Unauthorized''] (responding 200 ''OK''))
        example_config 0 [])) = 2"
  by (simp add: call_defs)

text \<open>
  C3, amended: within one back-off attempt (one run of the authentication wrapper) whose
  first dispatch fails with status 401 while \<open>skipAuth\<close> is unset, the refresh is
  attempted once (the refresh function is called exactly once if one is configured) and
  at most one more dispatch follows, whose outcome is final for the attempt. If that
  retried dispatch fails with 401 too, no second refresh is made, and when the error
  interceptors leave the status alone the back-off mechanism does not retry either: the
  logical call ends in failure after two dispatches and one refresh, and the 401 error
  propagates to the caller. The error thrown to the caller is what the error interceptors
  returned for the second 401 error and carries status 401; it is that 401 error itself
  when no interceptor is registered and its message does not mention the network. Only
  when \<open>handleRequestError\<close> itself throws (an interceptor throws, or the message of the
  error mentions the network) does the call fail with what the handler threw instead.
\<close>

theorem auth_refresh_once_per_attempt:
  assumes "dispatch_fails_401 w cfg log" and "\<not> skipAuth cfg"
  shows "makeRequestWithAuth this w cfg 0 log =
           (case refreshAuthToken this w (log @ [Fetch]) of
              (Some newToken, log2) \<Rightarrow>
                 if newToken \<noteq> [] then executeRequest w cfg log2
                 else (fst (executeRequest w cfg log), log2)
            | (None, log2) \<Rightarrow> (fst (executeRequest w cfg log), log2))
       \<and> refreshes (snd (makeRequestWithAuth this w cfg 0 log))
           = refreshes log + (if hasRefreshToken this then 1 else 0)
       \<and> fetches (snd (makeRequestWithAuth this w cfg 0 log)) \<le> fetches log + 2
       \<and> (\<forall>tok log2.
            refreshAuthToken this w (log @ [Fetch]) = (Some tok, log2) \<and> tok \<noteq> []
              \<and> dispatch_fails_401 w cfg log2
              \<and> (\<forall>i \<in> set (errorInterceptors this). preserves_status i)
            \<longrightarrow> fetches (snd (makeRequest this w cfg attempt log)) = fetches log + 2
              \<and> refreshes (snd (makeRequest this w cfg attempt log)) = refreshes log + 1
              \<and> isl (fst (makeRequest this w cfg attempt log))
              \<and> (\<exists>e. fst (executeRequest w cfg log2) = Inl (ServiceError e)
                   \<and> status e = Some 401
                   \<and> (case handleRequestError this (ServiceError e) (log2 @ [Fetch]) of
                        (Inl t, log3) \<Rightarrow> makeRequest this w cfg attempt log = (Inl t, log3)
                      | (Inr pe, log3) \<Rightarrow>
                          makeRequest this w cfg attempt log = (Inl (ServiceError pe), log3)
                          \<and> status pe = Some 401)
                   \<and> (errorInterceptors this = [] \<and> network_related (ServiceError e) = None
                        \<longrightarrow> makeRequest this w cfg attempt log
                              = (Inl (ServiceError e), log2 @ [Fetch]))))"
proof -
  note ch = makeRequestWithAuth_401 [OF assms, of this]
  obtain tk l2 where ra: "refreshAuthToken this w (log @ [Fetch]) = (tk, l2)"
    by (cases "refreshAuthToken this w (log @ [Fetch])")
  note rc = refreshAuthToken_counts [OF ra]
  have f1: "fetches (log @ [Fetch]) = fetches log + 1"
           "refreshes (log @ [Fetch]) = refreshes log"
    by (simp_all add: fetches_def refreshes_def)
  have sn: "snd (makeRequestWithAuth this w cfg 0 log) = l2
          \<or> snd (makeRequestWithAuth this w cfg 0 log) = l2 @ [Fetch]"
    using ch ra executeRequest_log [of w cfg l2] by (auto split: option.splits)
  have 2: "refreshes (snd (makeRequestWithAuth this w cfg 0 log))
           = refreshes log + (if hasRefreshToken this then 1 else 0)"
    using sn rc f1 by (auto simp: refreshes_def)
  have 3: "fetches (snd (makeRequestWithAuth this w cfg 0 log)) \<le> fetches log + 2"
    using sn rc f1 by (auto simp: fetches_def)
  show ?thesis
  proof (intro conjI allI impI)
    show "makeRequestWithAuth this w cfg 0 log =
           (case refreshAuthToken this w (log @ [Fetch]) of
              (Some newToken, log2) \<Rightarrow>
                 if newToken \<noteq> [] then executeRequest w cfg log2
                 else (fst (executeRequest w cfg log), log2)
            | (None, log2) \<Rightarrow> (fst (executeRequest w cfg log), log2))"
      by (rule ch)
  next
    show "refreshes (snd (makeRequestWithAuth this w cfg 0 log))
           = refreshes log + (if hasRefreshToken this then 1 else 0)"
      by (rule 2)
  next
    show "fetches (snd (makeRequestWithAuth this w cfg 0 log)) \<le> fetches log + 2"
      by (rule 3)
  next
    fix tok log2
    assume h: "refreshAuthToken this w (log @ [Fetch]) = (Some tok, log2) \<and> tok \<noteq> []
              \<and> dispatch_fails_401 w cfg log2
              \<and> (\<forall>i \<in> set (errorInterceptors this). preserves_status i)"
    note t = makeRequest_401_twice [OF assms, of this tok log2 attempt]
    from h t show "fetches (snd (makeRequest this w cfg attempt log)) = fetches log + 2"
      by simp
    from h t show "refreshes (snd (makeRequest this w cfg attempt log)) = refreshes log + 1"
      by simp
    from h t show "isl (fst (makeRequest this w cfg attempt log))"
      by simp
    from h show "\<exists>e. fst (executeRequest w cfg log2) = Inl (ServiceError e)
                   \<and> status e = Some 401
                   \<and> (case handleRequestError this (ServiceError e) (log2 @ [Fetch]) of
                        (Inl t, log3) \<Rightarrow> makeRequest this w cfg attempt log = (Inl t, log3)
                      | (Inr pe, log3) \<Rightarrow>
                          makeRequest this w cfg attempt log = (Inl (ServiceError pe), log3)
                          \<and> status pe = Some 401)
                   \<and> (errorInterceptors this = [] \<and> network_related (ServiceError e) = None
                        \<longrightarrow> makeRequest this w cfg attempt log
                              = (Inl (ServiceError e), log2 @ [Fetch]))"
      using makeRequest_401_twice_thrown [OF assms, of this tok log2 attempt] by simp
  qed
qed

theorem auth_refresh_once_per_attempt_witness:
  "dispatch_fails_401 (scripted [] (responding 401 ''Unauthorized'')) example_config []
   \<and> \<not> skipAuth example_config
   \<and> refreshes (snd (makeRequestWithAuth example_service
                        (scripted [] (responding 401 ''Unauthorized'')) example_config 0 [])) = 1
   \<and> fetches (snd (makeRequest example_service
                      (scripted [] (responding 401 ''Unauthorized'')) example_config 0 [])) = 2
   \<and> refreshes (snd (makeRequest example_service
                        (scripted [] (responding 401 ''Unauthorized'')) example_config 0 [])) = 1
   \<and> makeRequest example_service
        (scripted [] (responding 401 ''Unauthorized'')) example_config 0 []
      = (Inl (ServiceError (createHttpError 401 ''Unauthorized'')),
         [Fetch, RefreshToken, OnTokenRefresh ''new-token'', Fetch])
   \<and> status (createHttpError 401 ''Unauthorized'') = Some 401"
proof -
  let ?w = "scripted [] (responding 401 ''Unauthorized'')"
  let ?l = "[Fetch, RefreshToken, OnTokenRefresh ''new-token'']"
  let ?e = "createHttpError 401 ''Unauthorized''"
  have h1: "dispatch_fails_401 ?w example_config []"
    by (simp add: call_defs)
  have h2: "\<not> skipAuth example_config"
    by (simp add: example_config_def)
  have r: "refreshAuthToken example_service ?w ([] @ [Fetch]) = (Some ''new-token'', ?l)"
    by (simp add: call_defs)
  have h3: "dispatch_fails_401 ?w example_config ?l"
    by (simp add: call_defs)
  have p: "\<forall>i \<in> set (errorInterceptors example_service). preserves_status i"
    by (simp add: example_service_def)
  have hr: "hasRefreshToken example_service"
    by (simp add: example_service_def)
  have x: "fst (executeRequest ?w example_config ?l) = Inl (ServiceError ?e)"
    by (simp add: call_defs)
  have n: "errorInterceptors example_service = [] \<and> network_related (ServiceError ?e) = None"
    by (simp add: call_defs)
  have s: "status ?e = Some 401"
    by (simp add: call_defs)
  note T = auth_refresh_once_per_attempt [OF h1 h2, of example_service 0]
  from T [THEN conjunct2, THEN conjunct1] hr
  have a: "refreshes (snd (makeRequestWithAuth example_service ?w example_config 0 [])) = 1"
    by (simp add: refreshes_def)
  have U: "refreshAuthToken example_service ?w ([] @ [Fetch]) = (Some ''new-token'', ?l)
             \<and> ''new-token'' \<noteq> []
             \<and> dispatch_fails_401 ?w example_config ?l
             \<and> (\<forall>i \<in> set (errorInterceptors example_service). preserves_status i)"
    using r h3 p by simp
  note V = T [THEN conjunct2, THEN conjunct2, THEN conjunct2, rule_format, OF U]
  from V [THEN conjunct1] V [THEN conjunct2, THEN conjunct1]
  have b: "fetches (snd (makeRequest example_service ?w example_config 0 [])) = 2"
          "refreshes (snd (makeRequest example_service ?w example_config 0 [])) = 1"
    by (simp_all add: fetches_def refreshes_def)
  from V [THEN conjunct2, THEN conjunct2, THEN conjunct2]
  obtain e where e: "fst (executeRequest ?w example_config ?l) = Inl (ServiceError e)"
    and l: "errorInterceptors example_service = [] \<and> network_related (ServiceError e) = None
              \<longrightarrow> makeRequest example_service ?w example_config 0 []
                    = (Inl (ServiceError e), ?l @ [Fetch])"
    by (elim exE conjE)
  from e x have "e = ?e"
    by simp
  with l n have c: "makeRequest example_service ?w example_config 0 []
      = (Inl (ServiceError ?e), [Fetch, RefreshToken, OnTokenRefresh ''new-token'', Fetch])"
    by simp
  from h1 h2 a b c s show ?thesis
    by (intro conjI)
qed

subsection \<open>Error interceptors and retries\<close>

lemma handleRequestError_chain:
  "\<not> rethrown_by_handler error \<Longrightarrow>
     handleRequestError this error log
       = applyErrorInterceptors (errorInterceptors this) (wrapError error) log"
  by (auto simp: handleRequestError_def rethrown_by_handler_def split: option.splits)

lemma applyErrorInterceptors_log:
  "snd (applyErrorInterceptors ics e log) = log @ map ErrorInterceptor (chain_inputs ics e)"
  by (induction ics e log rule: applyErrorInterceptors.induct) (auto split: sum.splits)

lemma chain_inputs_length:
  "length (chain_inputs ics e) \<le> length ics"
  by (induction ics e rule: chain_inputs.induct) (auto split: sum.splits)

lemma applyErrorInterceptors_throws:
  "applyErrorInterceptors ics e log = (Inl t, log') \<Longrightarrow>
     interceptions log < interceptions log' \<and> interceptions log' \<le> interceptions log + length ics"
  by (induction ics e log rule: applyErrorInterceptors.induct)
     (fastforce simp: interceptions_def split: sum.splits)+

lemma handleRequestError_rethrows:
  "rethrown_by_handler error \<Longrightarrow>
     snd (handleRequestError this error log) = log \<and> isl (fst (handleRequestError this error log))"
  by (auto simp: handleRequestError_def rethrown_by_handler_def split: option.splits)

text \<open>
  C6, as stated: no error interceptor is invoked on a failure that the back-off
  mechanism then retries. It fails: \<open>handleRequestError\<close> runs the chain on every failed
  attempt, before \<open>makeRequest\<close> decides about the retry. With one interceptor
  registered and the answers 503, 200 the interceptor is invoked on the 503, the call
  sleeps, dispatches again and succeeds.
\<close>

theorem interceptor_sees_retried_failure_counterexample:
  "snd (makeRequest (example_service\<lparr>errorInterceptors := [Inr]\<rparr>)
          (scripted [responding 503 ''Service Unavailable''] (responding 200 ''OK''))
          example_config 0 [])
     = [Fetch, ErrorInterceptor (createHttpError 503 ''Service Unavailable''), Sleep (Finite 1000), Fetch]
   \<and> \<not> isl (fst (makeRequest (example_service\<lparr>errorInterceptors := [Inr]\<rparr>)
          (scripted [responding 503 ''Service Unavailable''] (responding 200 ''OK''))
          example_config 0 []))"
  by (simp add: call_defs)

text \<open>
  C6, amended: the error interceptors are applied, in the order of registration, to the
  wrapped error of every failed attempt that \<open>handleRequestError\<close> does not rethrow as
  an abort or network error, before the retry decision and whether or not the attempt is
  then retried; each interceptor receives what its predecessor returned. When all of them
  return, each has been invoked once, the decision to retry is taken on the error the
  last one returned, and a failure that is not retried is thrown as that error. When one
  of them throws, the chain stops there: at least one and at most all of the interceptors
  have been invoked, no retry decision is taken, and the logical call fails with what the
  interceptor threw.
\<close>

theorem error_interceptors_run_before_retry_decision:
  assumes "makeRequestWithAuth this w cfg 0 log = (Inl error, log1)"
      and "\<not> rethrown_by_handler error"
  shows "handleRequestError this error log1
           = applyErrorInterceptors (errorInterceptors this) (wrapError error) log1
       \<and> snd (handleRequestError this error log1)
           = log1 @ map ErrorInterceptor (chain_inputs (errorInterceptors this) (wrapError error))
       \<and> (case handleRequestError this error log1 of
            (Inr pe, log2) \<Rightarrow>
               interceptions log2 = interceptions log1 + length (errorInterceptors this)
             \<and> makeRequest this w cfg attempt log =
                 (if attempt < effective_retries this cfg \<and> shouldRetry pe
                  then makeRequest this w cfg (attempt + 1)
                         (log2 @ [Sleep (calculateBackoff attempt
                                           (or_default (retryDelay cfg) (this_retryDelay this)))])
                  else (Inl (ServiceError pe), log2))
          | (Inl t, log2) \<Rightarrow>
               interceptions log1 < interceptions log2
             \<and> interceptions log2 \<le> interceptions log1 + length (errorInterceptors this)
             \<and> makeRequest this w cfg attempt log = (Inl t, log2))"
proof -
  note c = handleRequestError_chain [OF assms(2), of this log1]
  have l: "snd (handleRequestError this error log1)
           = log1 @ map ErrorInterceptor (chain_inputs (errorInterceptors this) (wrapError error))"
    by (simp only: c applyErrorInterceptors_log)
  obtain hres log2 where h: "handleRequestError this error log1 = (hres, log2)"
    by (cases "handleRequestError this error log1")
  have "(case (hres, log2) of
            (Inr pe, log2) \<Rightarrow>
               interceptions log2 = interceptions log1 + length (errorInterceptors this)
             \<and> makeRequest this w cfg attempt log =
                 (if attempt < effective_retries this cfg \<and> shouldRetry pe
                  then makeRequest this w cfg (attempt + 1)
                         (log2 @ [Sleep (calculateBackoff attempt
                                           (or_default (retryDelay cfg) (this_retryDelay this)))])
                  else (Inl (ServiceError pe), log2))
          | (Inl t, log2) \<Rightarrow>
               interceptions log1 < interceptions log2
             \<and> interceptions log2 \<le> interceptions log1 + length (errorInterceptors this)
             \<and> makeRequest this w cfg attempt log = (Inl t, log2))"
  proof (cases hres)
    case (Inl t)
    have "applyErrorInterceptors (errorInterceptors this) (wrapError error) log1 = (Inl t, log2)"
      using h c Inl by simp
    from applyErrorInterceptors_throws [OF this]
         makeRequest_handler_throws [OF assms(1), of t log2 attempt] h Inl
    show ?thesis
      by simp
  next
    case (Inr pe)
    have hh: "handleRequestError this error log1 = (Inr pe, log2)"
      using h Inr by simp
    from applyErrorInterceptors_all_invoked [OF handleRequestError_Inr [OF hh]]
         makeRequest_failed_attempt [OF assms(1) hh, of attempt] Inr
    show ?thesis
      by simp
  qed
  with c l h show ?thesis
    by simp
qed

theorem error_interceptors_run_before_retry_decision_witness:
  "\<not> rethrown_by_handler (ServiceError (createHttpError 503 ''Service Unavailable''))
   \<and> makeRequestWithAuth (example_service\<lparr>errorInterceptors := [throwing, Inr]\<rparr>)
       (scripted [responding 503 ''Service Unavailable''] (responding 200 ''OK'')) example_config 0 []
     = (Inl (ServiceError (createHttpError 503 ''Service Unavailable'')), [Fetch])
   \<and> handleRequestError (example_service\<lparr>errorInterceptors := [throwing, Inr]\<rparr>)
       (ServiceError (createHttpError 503 ''Service Unavailable'')) [Fetch]
     = (Inl (ServiceError (createHttpError 503 ''Service Unavailable'')),
        [Fetch, ErrorInterceptor (createHttpError 503 ''Service Unavailable'')])
   \<and> makeRequest (example_service\<lparr>errorInterceptors := [throwing, Inr]\<rparr>)
       (scripted [responding 503 ''Service Unavailable''] (responding 200 ''OK'')) example_config 0 []
     = (Inl (ServiceError (createHttpError 503 ''Service Unavailable'')),
        [Fetch, ErrorInterceptor (createHttpError 503 ''Service Unavailable'')])
   \<and> makeRequest (example_service\<lparr>errorInterceptors := [Inr]\<rparr>)
       (scripted [responding 503 ''Service Unavailable''] (responding 200 ''OK'')) example_config 0 []
     = makeRequest (example_service\<lparr>errorInterceptors := [Inr]\<rparr>)
       (scripted [responding 503 ''Service Unavailable''] (responding 200 ''OK'')) example_config 1
       [Fetch, ErrorInterceptor (createHttpError 503 ''Service Unavailable''), Sleep (Finite 1000)]"
proof -
  let ?t = "example_service\<lparr>errorInterceptors := [throwing, Inr]\<rparr>"
  let ?s = "example_service\<lparr>errorInterceptors := [Inr]\<rparr>"
  let ?w = "scripted [responding 503 ''Service Unavailable''] (responding 200 ''OK'')"
  let ?e = "createHttpError 503 ''Service Unavailable''"
  have n: "\<not> rethrown_by_handler (ServiceError ?e)"
    by (simp add: rethrown_by_handler_def call_defs)
  have mt: "makeRequestWithAuth ?t ?w example_config 0 [] = (Inl (ServiceError ?e), [Fetch])"
    by (simp add: call_defs)
  have ht: "handleRequestError ?t (ServiceError ?e) [Fetch]
              = (Inl (ServiceError ?e), [Fetch, ErrorInterceptor ?e])"
    by (simp add: call_defs throwing_def)
  have ms: "makeRequestWithAuth ?s ?w example_config 0 [] = (Inl (ServiceError ?e), [Fetch])"
    by (simp add: call_defs)
  have hs: "handleRequestError ?s (ServiceError ?e) [Fetch] = (Inr ?e, [Fetch, ErrorInterceptor ?e])"
    by (simp add: call_defs)
  have s: "shouldRetry ?e" "0 < effective_retries ?s example_config"
          "calculateBackoff 0 (or_default (retryDelay example_config) (this_retryDelay ?s)) = Finite 1000"
    by (simp_all add: call_defs)
  from error_interceptors_run_before_retry_decision [OF mt n, of 0, THEN conjunct2, THEN conjunct2]
  have rt: "makeRequest ?t ?w example_config 0 [] = (Inl (ServiceError ?e), [Fetch, ErrorInterceptor ?e])"
    by (simp add: ht)
  from error_interceptors_run_before_retry_decision [OF ms n, of 0, THEN conjunct2, THEN conjunct2] s
  have rs: "makeRequest ?s ?w example_config 0 []
      = makeRequest ?s ?w example_config 1 [Fetch, ErrorInterceptor ?e, Sleep (Finite 1000)]"
    by (simp add: hs)
  from n mt ht rt rs show ?thesis
    by (intro conjI)
qed

section \<open>Properties of the shared tables\<close>

lemmas state_defs =
  request_enter_def request_settled_def request_complete_def settle_def leave_def
  delete_pending_def getCachedResponse_def getDeduplicatedRequest_def cacheResponse_def
  createCacheKey_def createURL_def buildURL_def method_or_GET_def method_is_not_GET_def
  initial_def example_host_def example_service_def example_config_def example_response_def
  example_dispatch_def example_state_def example_state_settled_def example_state_cached_def
  example_envelope_def marking_def fingerprint_def or_default_def Let_def

subsection \<open>The ways through the entry of \<open>request\<close>\<close>

lemma request_enter_cases:
  assumes "request_enter this H url cfg st = (out, st')"
  obtains
    (threw) t where
      "applyRequestInterceptors (requestInterceptors this) cfg = Inl t" "out = Threw t" "st' = st"
  | (hit) pcfg r c' where
      "applyRequestInterceptors (requestInterceptors this) cfg = Inr pcfg"
      "getCachedResponse this H (createURL this url (params pcfg)) pcfg (cache st) = (Some r, c')"
      "out = Returned r" "st' = st\<lparr>cache := c'\<rparr>"
  | (shared) pcfg c' k p where
      "applyRequestInterceptors (requestInterceptors this) cfg = Inr pcfg"
      "getCachedResponse this H (createURL this url (params pcfg)) pcfg (cache st) = (None, c')"
      "k = createCacheKey H (createURL this url (params pcfg)) pcfg"
      "this_enableDeduplication this" "pendingRequests st k = Some p"
      "out = SharesPromise p" "st' = st\<lparr>cache := c'\<rparr>"
  | (fresh) pcfg c' k where
      "applyRequestInterceptors (requestInterceptors this) cfg = Inr pcfg"
      "getCachedResponse this H (createURL this url (params pcfg)) pcfg (cache st) = (None, c')"
      "k = createCacheKey H (createURL this url (params pcfg)) pcfg"
      "this_enableDeduplication this \<longrightarrow> pendingRequests st k = None"
      "out = AwaitsOwnPromise (length (dispatches st))"
      "st' = st\<lparr>cache := c',
                dispatches := dispatches st @
                  [\<lparr>cacheKey = k, fullURL = createURL this url (params pcfg),
                    processedConfig = pcfg, promise = Pending, owner = AwaitingRequest\<rparr>],
                pendingRequests := (if this_enableDeduplication this
                                    then (pendingRequests st)(k \<mapsto> length (dispatches st))
                                    else pendingRequests st)\<rparr>"
  using assms
  by (auto simp: request_enter_def Let_def getDeduplicatedRequest_def
        split: sum.splits prod.splits option.splits if_splits)

lemma getCachedResponse_Some:
  assumes "getCachedResponse this H u pcfg c = (Some r, c')"
  shows "r = \<lparr>data = fst (cache_get H c u pcfg), res_status = 200, res_statusText = ''OK'',
               headers = [], config = pcfg\<rparr>
       \<and> truthy (fst (cache_get H c u pcfg)) \<and> c' = snd (cache_get H c u pcfg)
       \<and> this_enableCache this \<and> \<not> skipCache pcfg \<and> \<not> method_is_not_GET pcfg"
  using assms by (auto simp: getCachedResponse_def Let_def split: if_splits prod.splits)

lemma request_enter_Returned:
  assumes "request_enter this H url cfg st = (Returned r, st')"
  shows "\<exists>pcfg. applyRequestInterceptors (requestInterceptors this) cfg = Inr pcfg
           \<and> getCachedResponse this H (createURL this url (params pcfg)) pcfg (cache st)
               = (Some r, cache st')
           \<and> st' = st\<lparr>cache := cache st'\<rparr>"
  using assms by (cases rule: request_enter_cases) auto

text \<open>The entry of \<open>request\<close> does not look at the response interceptors.\<close>

lemma getCachedResponse_ris:
  "getCachedResponse (this\<lparr>responseInterceptors := ris\<rparr>) H u pcfg c
     = getCachedResponse this H u pcfg c"
  by (simp add: getCachedResponse_def)

lemma createURL_ris: "createURL (this\<lparr>responseInterceptors := ris\<rparr>) = createURL this"
  by (simp add: createURL_def fun_eq_iff)

lemma getDeduplicatedRequest_ris:
  "getDeduplicatedRequest (this\<lparr>responseInterceptors := ris\<rparr>) = getDeduplicatedRequest this"
  by (simp add: getDeduplicatedRequest_def fun_eq_iff)

lemma request_enter_ris:
  "request_enter (this\<lparr>responseInterceptors := ris\<rparr>) H url cfg st = request_enter this H url cfg st"
  unfolding request_enter_def createURL_ris getDeduplicatedRequest_ris getCachedResponse_ris
  by (auto simp: Let_def split: sum.splits prod.splits option.splits)

subsection \<open>The table of pending requests stays consistent\<close>

lemma table_consistent_initial: "table_consistent (initial c)"
  by (simp add: table_consistent_def initial_def)

lemma table_consistent_cache: "table_consistent (st\<lparr>cache := c\<rparr>) = table_consistent st"
  by (simp add: table_consistent_def)

lemma table_consistent_request_enter:
  assumes d: "this_enableDeduplication this" and t: "table_consistent st"
  shows "table_consistent (snd (request_enter this H url cfg st))"
proof -
  obtain out st' where e: "request_enter this H url cfg st = (out, st')"
    by (cases "request_enter this H url cfg st")
  from e have "table_consistent st'"
  proof (cases rule: request_enter_cases)
    case (fresh pcfg c' k)
    have free: "\<And>q. q < length (dispatches st) \<Longrightarrow> owner (dispatches st ! q) \<noteq> Finished
                  \<Longrightarrow> cacheKey (dispatches st ! q) \<noteq> k"
      using t fresh(4) d by (auto simp: table_consistent_def)
    show ?thesis
      using t d free unfolding fresh(6) table_consistent_def
      by (auto simp: nth_append less_Suc_eq)
  qed (use t in \<open>auto simp: table_consistent_def\<close>)
  then show ?thesis
    using e by simp
qed

lemma table_consistent_settle:
  assumes "table_consistent st" and "p < length (dispatches st)"
  shows "table_consistent (settle p result st)"
  using assms by (auto simp: table_consistent_def settle_def nth_list_update split: sum.splits)

lemma table_consistent_leave:
  assumes d: "this_enableDeduplication this" and t: "table_consistent st"
      and p: "p < length (dispatches st)" "owner (dispatches st ! p) \<noteq> Finished"
             "promise (dispatches st ! p) \<noteq> Pending"
  shows "table_consistent (leave this p st)"
proof -
  have own: "pendingRequests st (cacheKey (dispatches st ! p)) = Some p"
    using t p(1,2) by (simp add: table_consistent_def)
  have other: "\<And>q. q < length (dispatches st) \<Longrightarrow> q \<noteq> p
                 \<Longrightarrow> owner (dispatches st ! q) \<noteq> Finished
                 \<Longrightarrow> cacheKey (dispatches st ! q) \<noteq> cacheKey (dispatches st ! p)"
    using t own by (auto simp: table_consistent_def)
  show ?thesis
    using t d p other
    by (auto simp: table_consistent_def leave_def delete_pending_def nth_list_update)
qed

lemma table_consistent_exec:
  assumes d: "this_enableDeduplication this" and t: "table_consistent st"
      and e: "exec this H a st = Some st'"
  shows "table_consistent st'"
proof (cases a)
  case (Call url cfg)
  then show ?thesis
    using e table_consistent_request_enter [OF d t] by auto
next
  case (Settle p result)
  then show ?thesis
    using e t by (auto simp: table_consistent_settle split: if_splits)
next
  case (OwnerSettled p)
  with e obtain out where r: "request_settled this p st = Some (out, st')"
    by auto
  then have p: "p < length (dispatches st)" "owner (dispatches st ! p) = AwaitingRequest"
    by (auto simp: request_settled_def split: if_splits)
  show ?thesis
  proof (cases "promise (dispatches st ! p)")
    case Pending
    then show ?thesis
      using r p by (simp add: request_settled_def)
  next
    case (Fulfilled resp)
    then have "st' = st\<lparr>dispatches := (dispatches st)
                 [p := (dispatches st ! p)\<lparr>owner := InResponseInterceptors\<rparr>]\<rparr>"
      using r p by (simp add: request_settled_def)
    then show ?thesis
      using t p Fulfilled by (auto simp: table_consistent_def nth_list_update)
  next
    case (RejectedWith x)
    then have "st' = leave this p st"
      using r p by (simp add: request_settled_def)
    then show ?thesis
      using table_consistent_leave [OF d t p(1)] p(2) RejectedWith by simp
  qed
next
  case (OwnerComplete p)
  with e obtain out where r: "request_complete this H p st = Some (out, st')"
    by auto
  then have p: "p < length (dispatches st)" "owner (dispatches st ! p) = InResponseInterceptors"
    by (auto simp: request_complete_def split: if_splits)
  from r p obtain resp where f: "promise (dispatches st ! p) = Fulfilled resp"
    by (auto simp: request_complete_def split: PromiseState.splits)
  show ?thesis
  proof (cases "applyResponseInterceptors (responseInterceptors this) resp")
    case (Inl x)
    then have "st' = leave this p st"
      using r p f by (simp add: request_complete_def)
    then show ?thesis
      using table_consistent_leave [OF d t p(1)] p(2) f by simp
  next
    case (Inr processedResponse)
    define c where "c = cacheResponse this H (fullURL (dispatches st ! p)) processedResponse
                          (processedConfig (dispatches st ! p)) (cache st)"
    have "st' = leave this p (st\<lparr>cache := c\<rparr>)"
      using r p f Inr by (auto simp: request_complete_def Let_def c_def)
    then show ?thesis
      using table_consistent_leave [OF d, of "st\<lparr>cache := c\<rparr>" p] t p f
      by (simp add: table_consistent_cache)
  qed
qed

lemma table_consistent_run:
  assumes "this_enableDeduplication this"
  shows "table_consistent st \<Longrightarrow> run this H acts st = Some st' \<Longrightarrow> table_consistent st'"
proof (induction acts arbitrary: st)
  case Nil
  then show ?case
    by simp
next
  case (Cons a acts)
  then show ?case
    by (auto split: option.splits dest: table_consistent_exec [OF assms])
qed

lemma one_pending_per_key:
  assumes "table_consistent st"
      and "p < length (dispatches st)" "q < length (dispatches st)"
      and "cacheKey (dispatches st ! p) = cacheKey (dispatches st ! q)"
      and "promise (dispatches st ! p) = Pending" "promise (dispatches st ! q) = Pending"
  shows "p = q"
proof -
  have "owner (dispatches st ! p) = AwaitingRequest" "owner (dispatches st ! q) = AwaitingRequest"
    using assms(1,2,3,5,6) by (simp_all add: table_consistent_def)
  then have "pendingRequests st (cacheKey (dispatches st ! p)) = Some p"
            "pendingRequests st (cacheKey (dispatches st ! q)) = Some q"
    using assms(1,2,3) by (simp_all add: table_consistent_def)
  then show ?thesis
    using assms(4) by (metis option.inject)
qed

subsection \<open>Hits, misses and the removal of entries\<close>

lemma request_settled_removes:
  assumes "this_enableDeduplication this" and "request_settled this p st = Some (Some out, st')"
  shows "pendingRequests st' (cacheKey (dispatches st ! p)) = None"
  using assms
  by (auto simp: request_settled_def leave_def delete_pending_def
        split: if_splits PromiseState.splits)

lemma request_settled_keeps:
  assumes "request_settled this p st = Some (None, st')"
  shows "pendingRequests st' = pendingRequests st
       \<and> (\<exists>resp. promise (dispatches st ! p) = Fulfilled resp)"
  using assms
  by (auto simp: request_settled_def split: if_splits PromiseState.splits)

lemma request_complete_removes:
  assumes "this_enableDeduplication this" and "request_complete this H p st = Some (out, st')"
  shows "pendingRequests st' (cacheKey (dispatches st ! p)) = None"
  using assms
  by (auto simp: request_complete_def leave_def delete_pending_def Let_def
        split: if_splits PromiseState.splits sum.splits)

lemma request_enter_hit:
  assumes "this_enableDeduplication this" and "fingerprint this H url cfg = Some k"
      and "pendingRequests st k = Some p"
  shows "dispatches (snd (request_enter this H url cfg st)) = dispatches st
       \<and> pendingRequests (snd (request_enter this H url cfg st)) = pendingRequests st
       \<and> (fst (request_enter this H url cfg st) = SharesPromise p
          \<or> (\<exists>r. fst (request_enter this H url cfg st) = Returned r))"
proof -
  obtain out st' where e: "request_enter this H url cfg st = (out, st')"
    by (cases "request_enter this H url cfg st")
  from e show ?thesis
    using assms by (cases rule: request_enter_cases) (auto simp: fingerprint_def e)
qed

lemma request_enter_miss:
  assumes "fingerprint this H url cfg = Some k" and "pendingRequests st k = None"
  shows "fst (request_enter this H url cfg st) = AwaitsOwnPromise (length (dispatches st))
          \<and> length (dispatches (snd (request_enter this H url cfg st))) = length (dispatches st) + 1
       \<or> (\<exists>r. fst (request_enter this H url cfg st) = Returned r)"
proof -
  obtain out st' where e: "request_enter this H url cfg st = (out, st')"
    by (cases "request_enter this H url cfg st")
  from e show ?thesis
    using assms by (cases rule: request_enter_cases) (auto simp: fingerprint_def e)
qed

subsection \<open>Deduplication\<close>

text \<open>
  C2, as stated: the pending entry is removed when the dispatch settles, so that any
  call issued after the settlement dispatches afresh. It fails: the entry is removed in
  the \<^verbatim>\<open>finally\<close> block of the owning call, which on success runs only after
  \<^verbatim>\<open>await this.applyResponseInterceptors(response)\<close>. A client with one response
  interceptor starts \<^verbatim>\<open>GET /a\<close>; the dispatch settles with a response and the owner is
  suspended in the interceptor. A second \<^verbatim>\<open>GET /a\<close> issued now still finds the entry:
  it is handed the settled promise and nothing is dispatched.
\<close>

theorem settled_promise_still_shared_counterexample:
  "run (example_service\<lparr>responseInterceptors := [marking]\<rparr>) example_host
       [Call ''/a'' example_config, Settle 0 (Inr example_response), OwnerSettled 0] (initial [])
     = Some example_state_settled
   \<and> promise (dispatches example_state_settled ! 0) = Fulfilled example_response
   \<and> fst (request_enter (example_service\<lparr>responseInterceptors := [marking]\<rparr>) example_host
            ''/a'' example_config example_state_settled) = SharesPromise 0
   \<and> length (dispatches (snd (request_enter (example_service\<lparr>responseInterceptors := [marking]\<rparr>)
            example_host ''/a'' example_config example_state_settled))) = 1"
  by (simp add: state_defs)

text \<open>
  C2, amended: with deduplication enabled, in every state a client can reach, at most
  one dispatch per key is in flight; a call whose key is in the table of pending requests
  starts no dispatch (it is handed the registered promise, unless the cache serves it);
  the entry is removed unconditionally when the owning call leaves \<open>request\<close>, at once
  when its dispatch has failed, and after the response interceptors when it has succeeded
  (whether they return or throw), staying in place while they run; and a call that finds
  no entry for its key is never handed another call's promise: it starts a dispatch of
  its own unless the cache serves it.
\<close>

theorem deduplication_one_dispatch_per_key:
  assumes "this_enableDeduplication this" and "run this H acts (initial c) = Some st"
  shows "(\<forall>p q. p < length (dispatches st) \<and> q < length (dispatches st)
            \<and> cacheKey (dispatches st ! p) = cacheKey (dispatches st ! q)
            \<and> promise (dispatches st ! p) = Pending \<and> promise (dispatches st ! q) = Pending
            \<longrightarrow> p = q)
       \<and> (\<forall>url cfg k p. fingerprint this H url cfg = Some k \<and> pendingRequests st k = Some p
            \<longrightarrow> dispatches (snd (request_enter this H url cfg st)) = dispatches st
              \<and> (fst (request_enter this H url cfg st) = SharesPromise p
                 \<or> (\<exists>r. fst (request_enter this H url cfg st) = Returned r)))
       \<and> (\<forall>p out st'. request_settled this p st = Some (Some out, st')
            \<longrightarrow> pendingRequests st' (cacheKey (dispatches st ! p)) = None)
       \<and> (\<forall>p st'. request_settled this p st = Some (None, st')
            \<longrightarrow> pendingRequests st' = pendingRequests st
              \<and> (\<exists>resp. promise (dispatches st ! p) = Fulfilled resp))
       \<and> (\<forall>p out st'. request_complete this H p st = Some (out, st')
            \<longrightarrow> pendingRequests st' (cacheKey (dispatches st ! p)) = None)
       \<and> (\<forall>url cfg k. fingerprint this H url cfg = Some k \<and> pendingRequests st k = None
            \<longrightarrow> fst (request_enter this H url cfg st) = AwaitsOwnPromise (length (dispatches st))
                  \<and> length (dispatches (snd (request_enter this H url cfg st)))
                      = length (dispatches st) + 1
              \<or> (\<exists>r. fst (request_enter this H url cfg st) = Returned r))"
proof -
  have t: "table_consistent st"
    using table_consistent_run [OF assms(1) table_consistent_initial assms(2)] .
  have 1: "\<forall>p q. p < length (dispatches st) \<and> q < length (dispatches st)
            \<and> cacheKey (dispatches st ! p) = cacheKey (dispatches st ! q)
            \<and> promise (dispatches st ! p) = Pending \<and> promise (dispatches st ! q) = Pending
            \<longrightarrow> p = q"
    using one_pending_per_key [OF t] by blast
  have 2: "\<forall>url cfg k p. fingerprint this H url cfg = Some k \<and> pendingRequests st k = Some p
            \<longrightarrow> dispatches (snd (request_enter this H url cfg st)) = dispatches st
              \<and> (fst (request_enter this H url cfg st) = SharesPromise p
                 \<or> (\<exists>r. fst (request_enter this H url cfg st) = Returned r))"
    using request_enter_hit [OF assms(1)] by blast
  have 3: "\<forall>p out st'. request_settled this p st = Some (Some out, st')
            \<longrightarrow> pendingRequests st' (cacheKey (dispatches st ! p)) = None"
    using request_settled_removes [OF assms(1)] by blast
  have 6: "\<forall>p st'. request_settled this p st = Some (None, st')
            \<longrightarrow> pendingRequests st' = pendingRequests st
              \<and> (\<exists>resp. promise (dispatches st ! p) = Fulfilled resp)"
    using request_settled_keeps by blast
  have 4: "\<forall>p out st'. request_complete this H p st = Some (out, st')
            \<longrightarrow> pendingRequests st' (cacheKey (dispatches st ! p)) = None"
    using request_complete_removes [OF assms(1)] by blast
  have 5: "\<forall>url cfg k. fingerprint this H url cfg = Some k \<and> pendingRequests st k = None
            \<longrightarrow> fst (request_enter this H url cfg st) = AwaitsOwnPromise (length (dispatches st))
                  \<and> length (dispatches (snd (request_enter this H url cfg st)))
                      = length (dispatches st) + 1
              \<or> (\<exists>r. fst (request_enter this H url cfg st) = Returned r)"
    using request_enter_miss by blast
  from 1 2 3 6 4 5 show ?thesis
    by (intro conjI)
qed

theorem deduplication_one_dispatch_per_key_witness:
  "this_enableDeduplication example_service
   \<and> run example_service example_host [Call ''/a'' example_config] (initial []) = Some example_state
   \<and> fingerprint example_service example_host ''/a'' example_config = Some ''GET:/a:''
   \<and> pendingRequests example_state ''GET:/a:'' = Some 0
   \<and> dispatches (snd (request_enter example_service example_host ''/a'' example_config example_state))
       = dispatches example_state"
proof -
  have h1: "this_enableDeduplication example_service"
    by (simp add: example_service_def)
  have h2: "run example_service example_host [Call ''/a'' example_config] (initial [])
              = Some example_state"
    by (simp add: state_defs)
  have h3: "fingerprint example_service example_host ''/a'' example_config = Some ''GET:/a:''"
    by (simp add: state_defs)
  have h4: "pendingRequests example_state ''GET:/a:'' = Some 0"
    by (simp add: example_state_def)
  from deduplication_one_dispatch_per_key [OF h1 h2] h3 h4 show ?thesis
    using h1 h2 by blast
qed

subsection \<open>Cache hits\<close>

text \<open>
  C5, as stated: on a cache hit the registered response interceptors still run on the
  envelope before it is returned. It fails: \<open>request\<close> returns the envelope of
  \<open>getCachedResponse\<close> at once. With the marking interceptor registered and \<^verbatim>\<open>/a\<close> in
  the cache, the call returns the unmarked envelope, which is not what the interceptor
  makes of it.
\<close>

theorem cache_hit_skips_response_interceptors_counterexample:
  "fst (request_enter (example_service\<lparr>responseInterceptors := [marking]\<rparr>) example_host
          ''/a'' example_config example_state_cached) = Returned example_envelope
   \<and> applyResponseInterceptors [marking] example_envelope
       = Inr (example_envelope\<lparr>res_statusText := ''intercepted''\<rparr>)
   \<and> res_statusText example_envelope = ''OK''
   \<and> dispatches (snd (request_enter (example_service\<lparr>responseInterceptors := [marking]\<rparr>)
          example_host ''/a'' example_config example_state_cached))
       = dispatches example_state_cached"
  by (simp add: state_defs)

text \<open>
  C5, amended: for every request served from the cache, no dispatch is started and the
  table of pending requests is left alone; the request interceptors have run before the
  cache check, which looks up the URL and the configuration they produced; and the
  envelope is returned as \<open>getCachedResponse\<close> built it, whatever response interceptors
  are registered: they are not run on it.
\<close>

theorem cache_hit_bypasses_transport_and_response_interceptors:
  assumes "request_enter this H url cfg st = (Returned r, st')"
  shows "(case applyRequestInterceptors (requestInterceptors this) cfg of
            Inl t \<Rightarrow> False
          | Inr pcfg \<Rightarrow>
              truthy (fst (cache_get H (cache st) (createURL this url (params pcfg)) pcfg))
            \<and> r = \<lparr>data = fst (cache_get H (cache st) (createURL this url (params pcfg)) pcfg),
                    res_status = 200, res_statusText = ''OK'', headers = [], config = pcfg\<rparr>
            \<and> st' = st\<lparr>cache := snd (cache_get H (cache st)
                                        (createURL this url (params pcfg)) pcfg)\<rparr>)
       \<and> dispatches st' = dispatches st
       \<and> pendingRequests st' = pendingRequests st
       \<and> request_enter (this\<lparr>responseInterceptors := ris\<rparr>) H url cfg st = (Returned r, st')"
proof -
  from request_enter_Returned [OF assms] obtain pcfg where
    p: "applyRequestInterceptors (requestInterceptors this) cfg = Inr pcfg"
       "getCachedResponse this H (createURL this url (params pcfg)) pcfg (cache st)
          = (Some r, cache st')"
       "st' = st\<lparr>cache := cache st'\<rparr>"
    by blast
  note g = getCachedResponse_Some [OF p(2)]
  have d: "dispatches st' = dispatches st" "pendingRequests st' = pendingRequests st"
    by (subst p(3), simp)+
  have c: "st' = st\<lparr>cache := snd (cache_get H (cache st) (createURL this url (params pcfg)) pcfg)\<rparr>"
    using p(3) g by simp
  have e: "request_enter (this\<lparr>responseInterceptors := ris\<rparr>) H url cfg st = (Returned r, st')"
    using assms by (simp only: request_enter_ris)
  have "truthy (fst (cache_get H (cache st) (createURL this url (params pcfg)) pcfg))
        \<and> r = \<lparr>data = fst (cache_get H (cache st) (createURL this url (params pcfg)) pcfg),
                res_status = 200, res_statusText = ''OK'', headers = [], config = pcfg\<rparr>
        \<and> st' = st\<lparr>cache := snd (cache_get H (cache st)
                                    (createURL this url (params pcfg)) pcfg)\<rparr>"
    using g c by blast
  then have "(case applyRequestInterceptors (requestInterceptors this) cfg of
            Inl t \<Rightarrow> False
          | Inr pcfg \<Rightarrow>
              truthy (fst (cache_get H (cache st) (createURL this url (params pcfg)) pcfg))
            \<and> r = \<lparr>data = fst (cache_get H (cache st) (createURL this url (params pcfg)) pcfg),
                    res_status = 200, res_statusText = ''OK'', headers = [], config = pcfg\<rparr>
            \<and> st' = st\<lparr>cache := snd (cache_get H (cache st)
                                        (createURL this url (params pcfg)) pcfg)\<rparr>)"
    by (simp only: p(1) sum.case)
  with d e show ?thesis
    by (intro conjI)
qed

theorem cache_hit_bypasses_transport_and_response_interceptors_witness:
  "request_enter example_service example_host ''/a'' example_config example_state_cached
     = (Returned example_envelope, example_state_cached)
   \<and> request_enter (example_service\<lparr>responseInterceptors := [marking]\<rparr>) example_host ''/a''
        example_config example_state_cached = (Returned example_envelope, example_state_cached)"
proof -
  have h: "request_enter example_service example_host ''/a'' example_config example_state_cached
     = (Returned example_envelope, example_state_cached)"
    by (simp add: state_defs)
  have e: "request_enter (example_service\<lparr>responseInterceptors := [marking]\<rparr>) example_host ''/a''
        example_config example_state_cached = (Returned example_envelope, example_state_cached)"
    using cache_hit_bypasses_transport_and_response_interceptors [OF h, of "[marking]"]
    by (elim conjE) assumption
  from h e show ?thesis
    by (rule conjI)
qed

text \<open>
  The example client reaches the cached state by itself: the first \<^verbatim>\<open>GET /a\<close> is
  dispatched, answered with status 201, and stored when its owner completes.
\<close>

lemma example_state_cached_reached:
  "run example_service example_host
       [Call ''/a'' example_config, Settle 0 (Inr example_response), OwnerSettled 0, OwnerComplete 0]
       (initial []) = Some example_state_cached"
  by (simp add: state_defs)

text \<open>
  C10. A response served from the cache carries synthesized metadata: its status is 200,
  its status text \<open>OK\<close>, its headers are empty, and its data is the cached payload. The
  status text and the headers of the response that filled the cache are not kept:
  \<open>cacheResponse\<close> stores the data alone.
\<close>

theorem cache_hit_envelope_is_synthesized:
  "(request_enter this H url cfg st = (Returned r, st')
      \<longrightarrow> res_status r = 200 \<and> res_statusText r = ''OK'' \<and> headers r = []
        \<and> (case applyRequestInterceptors (requestInterceptors this) cfg of
              Inl t \<Rightarrow> False
            | Inr pcfg \<Rightarrow>
                data r = fst (cache_get H (cache st) (createURL this url (params pcfg)) pcfg)
                \<and> config r = pcfg))
   \<and> (getCachedResponse this H u pcfg c = (Some r, c')
      \<longrightarrow> r = \<lparr>data = fst (cache_get H c u pcfg), res_status = 200, res_statusText = ''OK'',
                 headers = [], config = pcfg\<rparr>)
   \<and> cacheResponse this H u (resp\<lparr>res_status := s, res_statusText := t, headers := h\<rparr>) pcfg c
       = cacheResponse this H u resp pcfg c"
proof -
  have 1: "request_enter this H url cfg st = (Returned r, st')
      \<longrightarrow> res_status r = 200 \<and> res_statusText r = ''OK'' \<and> headers r = []
        \<and> (case applyRequestInterceptors (requestInterceptors this) cfg of
              Inl t \<Rightarrow> False
            | Inr pcfg \<Rightarrow>
                data r = fst (cache_get H (cache st) (createURL this url (params pcfg)) pcfg)
                \<and> config r = pcfg)"
  proof
    assume a: "request_enter this H url cfg st = (Returned r, st')"
    from request_enter_Returned [OF a] obtain pcfg where
      p: "applyRequestInterceptors (requestInterceptors this) cfg = Inr pcfg"
         "getCachedResponse this H (createURL this url (params pcfg)) pcfg (cache st)
            = (Some r, cache st')"
      by blast
    from getCachedResponse_Some [OF p(2)]
    have "res_status r = 200 \<and> res_statusText r = ''OK'' \<and> headers r = []
          \<and> data r = fst (cache_get H (cache st) (createURL this url (params pcfg)) pcfg)
          \<and> config r = pcfg"
      by auto
    then show "res_status r = 200 \<and> res_statusText r = ''OK'' \<and> headers r = []
        \<and> (case applyRequestInterceptors (requestInterceptors this) cfg of
              Inl t \<Rightarrow> False
            | Inr pcfg \<Rightarrow>
                data r = fst (cache_get H (cache st) (createURL this url (params pcfg)) pcfg)
                \<and> config r = pcfg)"
      by (simp only: p(1) sum.case)
  qed
  have 2: "getCachedResponse this H u pcfg c = (Some r, c')
      \<longrightarrow> r = \<lparr>data = fst (cache_get H c u pcfg), res_status = 200, res_statusText = ''OK'',
                 headers = [], config = pcfg\<rparr>"
  proof
    assume g: "getCachedResponse this H u pcfg c = (Some r, c')"
    from getCachedResponse_Some [OF g]
    show "r = \<lparr>data = fst (cache_get H c u pcfg), res_status = 200, res_statusText = ''OK'',
                 headers = [], config = pcfg\<rparr>"
      by (rule conjunct1)
  qed
  have 3: "cacheResponse this H u (resp\<lparr>res_status := s, res_statusText := t, headers := h\<rparr>) pcfg c
       = cacheResponse this H u resp pcfg c"
    by (simp add: cacheResponse_def)
  from 1 2 3 show ?thesis
    by (intro conjI)
qed

theorem cache_hit_envelope_is_synthesized_witness:
  "request_enter example_service example_host ''/a'' example_config example_state_cached
       = (Returned example_envelope, example_state_cached)
   \<and> res_status example_envelope = 200 \<and> res_statusText example_envelope = ''OK''
   \<and> headers example_envelope = []"
proof -
  have h: "request_enter example_service example_host ''/a'' example_config example_state_cached
     = (Returned example_envelope, example_state_cached)"
    by (simp add: state_defs)
  have "res_status example_envelope = 200 \<and> res_statusText example_envelope = ''OK''
        \<and> headers example_envelope = []"
    using cache_hit_envelope_is_synthesized
            [of example_service example_host "''/a''" example_config example_state_cached
                example_envelope example_state_cached, THEN conjunct1, rule_format, OF h]
    by (elim conjE) (intro conjI)
  with h show ?thesis
    by (rule conjI)
qed

section \<open>Properties of the request queue\<close>

text \<open>
  C7, as stated: a queue constructed with \<open>maxQueueSize = 0\<close> rejects every
  \<open>enqueue\<close>. It fails: the constructor stores \<^verbatim>\<open>config.maxQueueSize || 100\<close>, so a
  size of 0 is replaced by 100, and the first request is accepted (and, on the empty
  queue, handed to the executor at once).
\<close>

theorem zero_maxQueueSize_accepts_counterexample:
  "opt_maxQueueSize example_queue_config = Some 0
   \<and> enqueue example_config 1000 (RequestQueue_new example_queue_config)
     = Inr (Some \<lparr>queued_config = example_config, priority = 0, timestamp = 1000\<rparr>,
            (RequestQueue_new example_queue_config)\<lparr>activeRequests := 1, lastRequestTime := 1000\<rparr>)"
  by (simp add: enqueue_def RequestQueue_new_def or_default_def Let_def example_queue_config_def
        processQueue_def sortQueue_def)

text \<open>
  C7, amended: \<open>enqueue\<close> rejects at once with the queue-full error whenever the queue
  holds at least the maximum stored by the constructor, and accepts otherwise; the stored
  maximum is the configured one, or 100 when none or 0 was configured, so a queue
  constructed with \<open>maxQueueSize = 0\<close> has the maximum 100 and accepts its first request.
\<close>

theorem enqueue_rejects_at_stored_maximum:
  "(maxQueueSize (queue_config q) \<le> length (queue q)
      \<longrightarrow> enqueue cfg now q = Inl ''Request queue is full'')
   \<and> (length (queue q) < maxQueueSize (queue_config q) \<longrightarrow> \<not> isl (enqueue cfg now q))
   \<and> maxQueueSize (queue_config (RequestQueue_new qc)) = or_default (opt_maxQueueSize qc) 100
   \<and> (opt_maxQueueSize qc = Some 0
      \<longrightarrow> maxQueueSize (queue_config (RequestQueue_new qc)) = 100
        \<and> \<not> isl (enqueue cfg now (RequestQueue_new qc)))"
  by (auto simp: enqueue_def RequestQueue_new_def or_default_def Let_def)

theorem enqueue_rejects_at_stored_maximum_witness:
  "opt_maxQueueSize example_queue_config = Some 0
   \<and> maxQueueSize (queue_config (RequestQueue_new example_queue_config)) = 100
   \<and> \<not> isl (enqueue example_config 1000 (RequestQueue_new example_queue_config))"
proof -
  have h: "opt_maxQueueSize example_queue_config = Some 0"
    by (simp add: example_queue_config_def)
  from enqueue_rejects_at_stored_maximum
         [of _ example_config 1000 example_queue_config, THEN conjunct2, THEN conjunct2,
          THEN conjunct2, rule_format, OF h] h
  show ?thesis
    by simp
qed

end
